theory Spec2Isabelle
  imports Complex_Main
begin

section \<open>Numbers and vectors\<close>

text \<open>
  The game computes with JavaScript numbers. They are modelled as real numbers: rounding
  and overflow are left out, the one non-finite effect the code can reach (a division
  by zero) is kept. Dividing by zero raises nothing in JavaScript: it gives an infinity
  or, for \<open>0 / 0\<close>, NaN; NaN then makes every comparison false.
\<close>

datatype jsnum = Fin real | PosInf | NegInf | NaN

text \<open>\<open>x / y\<close> for finite \<open>x\<close> and a finite \<open>y\<close> that is not negative zero.\<close>

definition jsdiv :: "real \<Rightarrow> real \<Rightarrow> jsnum" where
  "jsdiv a b =
     (if b = 0 then (if a = 0 then NaN else if 0 < a then PosInf else NegInf)
      else Fin (a / b))"

text \<open>\<open>Math.min\<close> and \<open>Math.max\<close> of two numbers: NaN if either is NaN.\<close>

fun jsmin :: "jsnum \<Rightarrow> jsnum \<Rightarrow> jsnum" where
  "jsmin NaN _ = NaN"
| "jsmin _ NaN = NaN"
| "jsmin NegInf _ = NegInf"
| "jsmin _ NegInf = NegInf"
| "jsmin PosInf b = b"
| "jsmin a PosInf = a"
| "jsmin (Fin a) (Fin b) = Fin (min a b)"

fun jsmax :: "jsnum \<Rightarrow> jsnum \<Rightarrow> jsnum" where
  "jsmax NaN _ = NaN"
| "jsmax _ NaN = NaN"
| "jsmax PosInf _ = PosInf"
| "jsmax _ PosInf = PosInf"
| "jsmax NegInf b = b"
| "jsmax a NegInf = a"
| "jsmax (Fin a) (Fin b) = Fin (max a b)"

text \<open>
  \<open>THREE.Vector3\<close>, the vector class of the three.js library the game imports
  (version 0.158 by the README). The library's methods mutate the receiver and return
  it; the game calls them on clones or on vectors it does not read again, so here each
  is a function returning the new vector. The methods are those of the library:
  \<open>length\<close> is \<open>Math.sqrt\<close> of the sum of the squares, \<open>divideScalar s\<close> is
  \<open>multiplyScalar (1 / s)\<close>, \<open>distanceTo\<close> is \<open>Math.sqrt\<close> of \<open>distanceToSquared\<close>, and
  \<open>normalize\<close> is \<open>divideScalar (length () || 1)\<close>: the length 0 is replaced by 1, so
  that normalizing the zero vector divides by 1 and leaves it zero. The functions
  \<open>add\<close>, \<open>sub\<close>, \<open>dot\<close>, \<open>length\<close> and \<open>normalize\<close> carry a \<open>v\<close> in front here, and
  the components \<open>x\<close>, \<open>y\<close>, \<open>z\<close> are the fields \<open>cx\<close>, \<open>cy\<close>, \<open>cz\<close>.
\<close>

record Vector3 =
  cx :: real
  cy :: real
  cz :: real

definition vadd :: "Vector3 \<Rightarrow> Vector3 \<Rightarrow> Vector3" where
  "vadd a b = \<lparr>cx = cx a + cx b, cy = cy a + cy b, cz = cz a + cz b\<rparr>"

definition vsub :: "Vector3 \<Rightarrow> Vector3 \<Rightarrow> Vector3" where
  "vsub a b = \<lparr>cx = cx a - cx b, cy = cy a - cy b, cz = cz a - cz b\<rparr>"

definition multiplyScalar :: "Vector3 \<Rightarrow> real \<Rightarrow> Vector3" where
  "multiplyScalar a s = \<lparr>cx = cx a * s, cy = cy a * s, cz = cz a * s\<rparr>"

definition vdot :: "Vector3 \<Rightarrow> Vector3 \<Rightarrow> real" where
  "vdot a b = cx a * cx b + cy a * cy b + cz a * cz b"

definition lengthSq :: "Vector3 \<Rightarrow> real" where
  "lengthSq a = cx a * cx a + cy a * cy a + cz a * cz a"

definition vlength :: "Vector3 \<Rightarrow> real" where
  "vlength a = sqrt (cx a * cx a + cy a * cy a + cz a * cz a)"

definition divideScalar :: "Vector3 \<Rightarrow> real \<Rightarrow> Vector3" where
  "divideScalar a s = multiplyScalar a (1 / s)"

definition vnormalize :: "Vector3 \<Rightarrow> Vector3" where
  "vnormalize a = divideScalar a (if vlength a = 0 then 1 else vlength a)"

definition distanceToSquared :: "Vector3 \<Rightarrow> Vector3 \<Rightarrow> real" where
  "distanceToSquared a b =
     (let dx = cx a - cx b; dy = cy a - cy b; dz = cz a - cz b
      in dx * dx + dy * dy + dz * dz)"

definition distanceTo :: "Vector3 \<Rightarrow> Vector3 \<Rightarrow> real" where
  "distanceTo a b = sqrt (distanceToSquared a b)"

section \<open>The game's data\<close>

text \<open>
  Of a ball's mesh only its position matters to the physics; of a line's mesh nothing
  does. The field \<open>end\<close> of a segment is called \<open>endp\<close>.
\<close>

record Ball =
  position :: Vector3
  velocity :: Vector3
  radius :: real

record LineSegment =
  start :: Vector3
  endp :: Vector3

record Line =
  segments :: "LineSegment list"

text \<open>
  The fields of \<open>BallBarrierGame\<close> that the game logic reads or writes. The canvas, the
  scene, the camera, the renderer, the wall meshes and the preview line only draw;
  \<open>lastTime\<close> only serves to measure \<open>deltaTime\<close>, which is an input of a tick here.
\<close>

record Game =
  balls :: "Ball list"
  lines :: "Line list"
  gameStarted :: bool
  gameTime :: real
  isDrawing :: bool
  currentLinePoints :: "Vector3 list"
  ballSpeed :: real
  ballCount :: real
  nextBallSpawn :: real

definition worldSize :: real where
  "worldSize = 10"

definition boundarySize :: real where
  "boundarySize = worldSize * 0.9"

section \<open>Geometry\<close>

text \<open>
  \<open>pointToLineDistance\<close>. When \<open>t\<close> is NaN, so are the scaled line, the projection and
  the distance returned.
\<close>

definition pointToLineDistance :: "Vector3 \<Rightarrow> Vector3 \<Rightarrow> Vector3 \<Rightarrow> jsnum" where
  "pointToLineDistance point lineStart lineEnd =
     (let line = vsub lineEnd lineStart;
          pointToStart = vsub point lineStart
      in case jsmax (Fin 0) (jsmin (Fin 1) (jsdiv (vdot pointToStart line) (lengthSq line))) of
           Fin t \<Rightarrow>
             (let projection = vadd lineStart (multiplyScalar line t)
              in Fin (distanceTo point projection))
         | _ \<Rightarrow> NaN)"

section \<open>Barriers\<close>

text \<open>\<open>gameOver\<close>: besides showing the final time, it clears the running flag.\<close>

definition gameOver :: "Game \<Rightarrow> Game" where
  "gameOver g = g\<lparr>gameStarted := False\<rparr>"

text \<open>The test of \<open>checkLineOutOfBounds\<close> on one segment.\<close>

definition segmentOutOfBounds :: "LineSegment \<Rightarrow> bool" where
  "segmentOutOfBounds segment =
     (\<bar>cx (start segment)\<bar> > boundarySize / 2 \<or>
      \<bar>cz (start segment)\<bar> > boundarySize / 2 \<or>
      \<bar>cx (endp segment)\<bar> > boundarySize / 2 \<or>
      \<bar>cz (endp segment)\<bar> > boundarySize / 2)"

text \<open>
  \<open>checkLineOutOfBounds\<close> walks every segment of every line of the game, the old ones
  too, and at the first one out of bounds calls \<open>gameOver\<close> and returns.
\<close>

definition checkLineOutOfBounds :: "Game \<Rightarrow> Game" where
  "checkLineOutOfBounds g =
     (if list_ex (\<lambda>line. list_ex segmentOutOfBounds (segments line)) (lines g)
      then gameOver g else g)"

text \<open>The loop of \<open>finalizeLine\<close> that pairs consecutive points.\<close>

fun lineSegmentsOf :: "Vector3 list \<Rightarrow> LineSegment list" where
  "lineSegmentsOf (p # q # ps) = \<lparr>start = p, endp = q\<rparr> # lineSegmentsOf (q # ps)"
| "lineSegmentsOf _ = []"

definition finalizeLine :: "Game \<Rightarrow> Game" where
  "finalizeLine g =
     (if length (currentLinePoints g) < 2 then g
      else
        let lineSegments = lineSegmentsOf (currentLinePoints g);
            g1 = g\<lparr>lines := lines g @ [\<lparr>segments = lineSegments\<rparr>]\<rparr>
        in checkLineOutOfBounds g1)"

text \<open>
  The pointer handlers, given the world coordinates \<open>(x, z)\<close> that
  \<open>getPointerPosition\<close> computes from the event. \<open>onPointerMove\<close> reads the last
  point of the buffer; on an empty buffer that read is \<open>undefined\<close> and the call of
  \<open>distanceTo\<close> on it throws, which is the result \<open>None\<close>.
\<close>

definition onPointerDown :: "real \<times> real \<Rightarrow> Game \<Rightarrow> Game" where
  "onPointerDown pos g =
     (if \<not> gameStarted g then g
      else g\<lparr>isDrawing := True,
             currentLinePoints := [\<lparr>cx = fst pos, cy = 0.1, cz = snd pos\<rparr>]\<rparr>)"

definition onPointerMove :: "real \<times> real \<Rightarrow> Game \<Rightarrow> Game option" where
  "onPointerMove pos g =
     (if \<not> gameStarted g \<or> \<not> isDrawing g then Some g
      else
        let newPoint = \<lparr>cx = fst pos, cy = 0.1, cz = snd pos\<rparr>
        in if currentLinePoints g = [] then None
           else
             let lastPoint = last (currentLinePoints g)
             in if distanceTo lastPoint newPoint > 0.1
                then Some (g\<lparr>currentLinePoints := currentLinePoints g @ [newPoint]\<rparr>)
                else Some g)"

definition onPointerUp :: "Game \<Rightarrow> Game" where
  "onPointerUp g =
     (if \<not> gameStarted g \<or> \<not> isDrawing g then g
      else
        let g1 = g\<lparr>isDrawing := False\<rparr>;
            g2 = (if length (currentLinePoints g1) > 1 then finalizeLine g1 else g1)
        in g2\<lparr>currentLinePoints := []\<rparr>)"

section \<open>Balls\<close>

text \<open>
  \<open>spawnBall\<close>. \<open>rnd\<close> is the value \<open>Math.random ()\<close> returns for the direction, a
  number in \<open>[0, 1)\<close>; the other random draw only colours the ball.
\<close>

definition spawnBall :: "real \<Rightarrow> Game \<Rightarrow> Game" where
  "spawnBall rnd g =
     (let angle = rnd * pi * 2;
          velocity = \<lparr>cx = cos angle * ballSpeed g, cy = 0, cz = sin angle * ballSpeed g\<rparr>
      in g\<lparr>balls := balls g @
            [\<lparr>position = \<lparr>cx = 0, cy = 0.15, cz = 0\<rparr>, velocity = velocity, radius = 0.15\<rparr>]\<rparr>)"

text \<open>
  The response of \<open>checkBallLineCollision\<close> to one segment, in the pieces the source
  computes: the normal of the segment, the reflected velocity, and the push.
\<close>

definition segmentNormal :: "LineSegment \<Rightarrow> Vector3" where
  "segmentNormal segment =
     (let lineDirection = vnormalize (vsub (endp segment) (start segment))
      in \<lparr>cx = - cz lineDirection, cy = 0, cz = cx lineDirection\<rparr>)"

definition reflect :: "Vector3 \<Rightarrow> Vector3 \<Rightarrow> Vector3" where
  "reflect v normal = (let dot = vdot v normal in vsub v (multiplyScalar normal (2 * dot)))"

definition closestPoint :: "Vector3 \<Rightarrow> LineSegment \<Rightarrow> Vector3" where
  "closestPoint p segment =
     (let lineDirection = vnormalize (vsub (endp segment) (start segment));
          toBall = vsub p (start segment);
          projection = vdot toBall lineDirection
      in vadd (start segment) (multiplyScalar lineDirection projection))"

text \<open>
  The body of the inner loop. The distance is computed twice in the source, in the test
  and in the length of the push; the position has not changed in between, so both calls
  return the same number. The function returns a finite number or NaN, and
  \<open>NaN < radius\<close> is false.
\<close>

definition collideSegment :: "Ball \<Rightarrow> LineSegment \<Rightarrow> Ball" where
  "collideSegment ball segment =
     (case pointToLineDistance (position ball) (start segment) (endp segment) of
        Fin d \<Rightarrow>
          if d < radius ball then
            let velocity' = reflect (velocity ball) (segmentNormal segment);
                pushDirection =
                  vnormalize (vsub (position ball) (closestPoint (position ball) segment))
            in ball\<lparr>velocity := velocity',
                    position := vadd (position ball)
                      (multiplyScalar pushDirection (radius ball - d + 0.01))\<rparr>
          else ball
      | _ \<Rightarrow> ball)"

text \<open>\<open>checkBallLineCollision\<close>: every segment of every line, in order, on the same ball.\<close>

definition checkBallLineCollision :: "Line list \<Rightarrow> Ball \<Rightarrow> Ball" where
  "checkBallLineCollision ls ball =
     foldl (\<lambda>b line. foldl collideSegment b (segments line)) ball ls"

text \<open>The two steps of \<open>updateBalls\<close> on one ball: the move and the boundary test.\<close>

definition moveBall :: "real \<Rightarrow> Ball \<Rightarrow> Ball" where
  "moveBall deltaTime ball =
     ball\<lparr>position := vadd (position ball) (multiplyScalar (velocity ball) deltaTime)\<rparr>"

definition outsideBoundary :: "Ball \<Rightarrow> bool" where
  "outsideBoundary ball =
     (\<bar>cx (position ball)\<bar> > boundarySize / 2 - radius ball \<or>
      \<bar>cz (position ball)\<bar> > boundarySize / 2 - radius ball)"

text \<open>
  The loop of \<open>updateBalls\<close>, from the last ball down to the first. The counter is the
  source's \<open>i + 1\<close>: the loop ends when it is 0.
\<close>

fun updateBallsFrom :: "nat \<Rightarrow> real \<Rightarrow> Game \<Rightarrow> Game" where
  "updateBallsFrom 0 deltaTime g = g"
| "updateBallsFrom (Suc i) deltaTime g =
     (let ball = moveBall deltaTime (balls g ! i);
          g1 = g\<lparr>balls := (balls g)[i := ball]\<rparr>
      in if outsideBoundary ball then gameOver g1
         else updateBallsFrom i deltaTime
                (g1\<lparr>balls := (balls g1)[i := checkBallLineCollision (lines g1) ball]\<rparr>))"

definition updateBalls :: "real \<Rightarrow> Game \<Rightarrow> Game" where
  "updateBalls deltaTime g = updateBallsFrom (length (balls g)) deltaTime g"

section \<open>The session\<close>

text \<open>The state a new \<open>BallBarrierGame\<close> has before the start button is pressed.\<close>

definition initialGame :: Game where
  "initialGame =
     \<lparr>balls = [], lines = [], gameStarted = False, gameTime = 0, isDrawing = False,
      currentLinePoints = [], ballSpeed = 2, ballCount = 1, nextBallSpawn = 5\<rparr>"

text \<open>
  The part of a tick before the balls move: the clock, the speed ramp and the spawn.
  \<open>deltaTime\<close> is the time since the last tick in seconds, \<open>rnd\<close> the random draw of a
  spawn. \<open>spawnInterval\<close> is the amount the tick adds to \<open>nextBallSpawn\<close>.
\<close>

definition spawnInterval :: "real \<Rightarrow> real" where
  "spawnInterval t = max 3 (8 - t * 0.1)"

definition rampAndSpawn :: "real \<Rightarrow> real \<Rightarrow> Game \<Rightarrow> Game" where
  "rampAndSpawn deltaTime rnd g =
     (let g1 = g\<lparr>gameTime := gameTime g + deltaTime\<rparr>;
          g2 = g1\<lparr>ballSpeed := 2 + gameTime g1 * 0.1\<rparr>
      in if gameTime g2 > nextBallSpawn g2
         then (let g3 = spawnBall rnd g2
               in g3\<lparr>nextBallSpawn := nextBallSpawn g3 + spawnInterval (gameTime g3)\<rparr>)
         else g2)"

text \<open>\<open>gameLoop\<close>, one tick.\<close>

definition gameLoop :: "real \<Rightarrow> real \<Rightarrow> Game \<Rightarrow> Game" where
  "gameLoop deltaTime rnd g =
     (if \<not> gameStarted g then g
      else updateBalls deltaTime (rampAndSpawn deltaTime rnd g))"

text \<open>
  \<open>startGame\<close> resets the session and spawns the first ball (\<open>resetGame\<close>), then runs
  the first tick at once. \<open>rnd\<close> is the random draw of the first ball; \<open>deltaTime\<close> and
  \<open>rnd'\<close> are the inputs of that first tick, \<open>deltaTime\<close> being the time between the two
  clock readings of \<open>startGame\<close> and \<open>gameLoop\<close>.
\<close>

definition resetGame :: "real \<Rightarrow> Game \<Rightarrow> Game" where
  "resetGame rnd g =
     spawnBall rnd
       (g\<lparr>gameStarted := True, gameTime := 0, ballSpeed := 2, ballCount := 1,
          nextBallSpawn := 5, balls := [], lines := []\<rparr>)"

definition startGame :: "real \<Rightarrow> real \<Rightarrow> real \<Rightarrow> Game \<Rightarrow> Game" where
  "startGame rnd deltaTime rnd' g = gameLoop deltaTime rnd' (resetGame rnd g)"

text \<open>\<open>restartGame\<close> hides the game-over panel and calls \<open>startGame\<close>.\<close>

definition restartGame :: "real \<Rightarrow> real \<Rightarrow> real \<Rightarrow> Game \<Rightarrow> Game" where
  "restartGame rnd deltaTime rnd' g = startGame rnd deltaTime rnd' g"

section \<open>Notions the properties are stated with\<close>

text \<open>
  The ball the specification describes for a spawn: at the origin of the plane (at the
  height of its radius), with the velocity \<open>(cos \<theta>, sin \<theta>) * speed\<close>.
\<close>

definition spawnedBall :: "real \<Rightarrow> real \<Rightarrow> Ball" where
  "spawnedBall angle speed =
     \<lparr>position = \<lparr>cx = 0, cy = 0.15, cz = 0\<rparr>,
      velocity = multiplyScalar \<lparr>cx = cos angle, cy = 0, cz = sin angle\<rparr> speed,
      radius = 0.15\<rparr>"

text \<open>
  The session state of the specification: the running flag, the clock, the speed, the
  spawn threshold, the balls and the barriers. The draw buffer is not part of it.
\<close>

definition sessionState :: "Game \<Rightarrow> bool \<times> real \<times> real \<times> real \<times> Ball list \<times> Line list" where
  "sessionState g = (gameStarted g, gameTime g, ballSpeed g, nextBallSpawn g, balls g, lines g)"

text \<open>
  The states the game can be in: the state of a new game, and from there every state the
  handlers lead to, whatever their inputs. \<open>onPointerMove\<close> leads on only where it
  does not throw.
\<close>

inductive reachable :: "Game \<Rightarrow> bool" where
  initial: "reachable initialGame"
| start: "reachable g \<Longrightarrow> reachable (startGame rnd deltaTime rnd' g)"
| restart: "reachable g \<Longrightarrow> reachable (restartGame rnd deltaTime rnd' g)"
| tick: "reachable g \<Longrightarrow> reachable (gameLoop deltaTime rnd g)"
| pointerDown: "reachable g \<Longrightarrow> reachable (onPointerDown pos g)"
| pointerMove: "reachable g \<Longrightarrow> onPointerMove pos g = Some g' \<Longrightarrow> reachable g'"
| pointerUp: "reachable g \<Longrightarrow> reachable (onPointerUp g)"

text \<open>
  What holds of every segment the pointer handlers make: both ends lie at height 0.1 and
  are more than 0.1 apart. With it, the invariant of the reachable states.
\<close>

definition segmentDrawn :: "LineSegment \<Rightarrow> bool" where
  "segmentDrawn segment =
     (cy (start segment) = 0.1 \<and> cy (endp segment) = 0.1 \<and>
      distanceTo (start segment) (endp segment) > 0.1)"

definition barriersInBounds :: "Game \<Rightarrow> bool" where
  "barriersInBounds g =
     (\<not> list_ex (\<lambda>line. list_ex segmentOutOfBounds (segments line)) (lines g))"

definition gameInvariant :: "Game \<Rightarrow> bool" where
  "gameInvariant g =
     ((gameStarted g \<longrightarrow> barriersInBounds g) \<and>
      list_all (\<lambda>line. list_all segmentDrawn (segments line)) (lines g) \<and>
      list_all (\<lambda>p. cy p = 0.1) (currentLinePoints g) \<and>
      list_all segmentDrawn (lineSegmentsOf (currentLinePoints g)) \<and>
      (isDrawing g \<longrightarrow> currentLinePoints g \<noteq> []))"

section \<open>Example states\<close>


text \<open>A game that is over: a ball has left on the right, one barrier is drawn.\<close>

definition endedGame :: Game where
  "endedGame =
     \<lparr>balls = [\<lparr>position = \<lparr>cx = 4.4, cy = 0.15, cz = 0\<rparr>,
                velocity = \<lparr>cx = 2, cy = 0, cz = 0\<rparr>, radius = 0.15\<rparr>],
      lines = [\<lparr>segments = [\<lparr>start = \<lparr>cx = 0, cy = 0.1, cz = 0\<rparr>,
                              endp = \<lparr>cx = 1, cy = 0.1, cz = 0\<rparr>\<rparr>]\<rparr>],
      gameStarted = False, gameTime = 2.2, isDrawing = False, currentLinePoints = [],
      ballSpeed = 2.22, ballCount = 1, nextBallSpawn = 5\<rparr>"

text \<open>A running game in which two points of a line have been drawn.\<close>

definition drawnTwoPoints :: Game where
  "drawnTwoPoints =
     \<lparr>balls = [\<lparr>position = \<lparr>cx = 0, cy = 0.15, cz = 0\<rparr>,
                velocity = \<lparr>cx = 2, cy = 0, cz = 0\<rparr>, radius = 0.15\<rparr>],
      lines = [], gameStarted = True, gameTime = 0, isDrawing = True,
      currentLinePoints = [\<lparr>cx = 0, cy = 0.1, cz = 0\<rparr>, \<lparr>cx = 1, cy = 0.1, cz = 0\<rparr>],
      ballSpeed = 2, ballCount = 1, nextBallSpawn = 5\<rparr>"

text \<open>The same with the second point beyond the right boundary, at \<open>x = 4.6\<close>.\<close>

definition drawnOutside :: Game where
  "drawnOutside =
     \<lparr>balls = [\<lparr>position = \<lparr>cx = 0, cy = 0.15, cz = 0\<rparr>,
                velocity = \<lparr>cx = 2, cy = 0, cz = 0\<rparr>, radius = 0.15\<rparr>],
      lines = [], gameStarted = True, gameTime = 0, isDrawing = True,
      currentLinePoints = [\<lparr>cx = 0, cy = 0.1, cz = 0\<rparr>, \<lparr>cx = 4.6, cy = 0.1, cz = 0\<rparr>],
      ballSpeed = 2, ballCount = 1, nextBallSpawn = 5\<rparr>"

text \<open>A running game a twentieth of a second before its first spawn is due.\<close>

definition beforeSpawn :: Game where
  "beforeSpawn =
     \<lparr>balls = [\<lparr>position = \<lparr>cx = 0, cy = 0.15, cz = 0\<rparr>,
                velocity = \<lparr>cx = 1, cy = 0, cz = 0\<rparr>, radius = 0.15\<rparr>],
      lines = [], gameStarted = True, gameTime = 4.95, isDrawing = False,
      currentLinePoints = [], ballSpeed = 2.495, ballCount = 1, nextBallSpawn = 5\<rparr>"

text \<open>A segment as the pointer handlers make them, from \<open>(0, 0)\<close> to \<open>(1, 0)\<close>.\<close>

definition unitX :: LineSegment where
  "unitX = \<lparr>start = \<lparr>cx = 0, cy = 0.1, cz = 0\<rparr>, endp = \<lparr>cx = 1, cy = 0.1, cz = 0\<rparr>\<rparr>"

text \<open>A ball whose centre lies on the segment \<open>unitX\<close>, at its middle.\<close>

definition onLineBall :: Ball where
  "onLineBall =
     \<lparr>position = \<lparr>cx = 0.5, cy = 0.1, cz = 0\<rparr>, velocity = \<lparr>cx = 0, cy = 0, cz = 1\<rparr>,
      radius = 0.15\<rparr>"

text \<open>A ball beside the middle of \<open>unitX\<close>, at the height balls are spawned at.\<close>

definition offLineBall :: Ball where
  "offLineBall =
     \<lparr>position = \<lparr>cx = 0.5, cy = 0.15, cz = 0.12\<rparr>, velocity = \<lparr>cx = 0, cy = 0, cz = -1\<rparr>,
      radius = 0.15\<rparr>"

text \<open>
  A ball at spawn height that comes up to the start of \<open>unitX\<close> from beyond it, along
  its line.
\<close>

definition endBall :: Ball where
  "endBall =
     \<lparr>position = \<lparr>cx = -0.12, cy = 0.15, cz = 0\<rparr>, velocity = \<lparr>cx = 2, cy = 0, cz = 0\<rparr>,
      radius = 0.15\<rparr>"

text \<open>
  A barrier segment close to the right boundary, and a ball moving past it to the right:
  before the tick, after its move, and after the collision response.
\<close>

definition wallSegment :: LineSegment where
  "wallSegment =
     \<lparr>start = \<lparr>cx = 4.22, cy = 0.1, cz = -0.5\<rparr>, endp = \<lparr>cx = 4.22, cy = 0.1, cz = 0.5\<rparr>\<rparr>"

definition incomingBall :: Ball where
  "incomingBall =
     \<lparr>position = \<lparr>cx = 4.33, cy = 0.15, cz = 0\<rparr>, velocity = \<lparr>cx = 2, cy = 0, cz = 0\<rparr>,
      radius = 0.15\<rparr>"

definition touchingBall :: Ball where
  "touchingBall =
     \<lparr>position = \<lparr>cx = 4.34, cy = 0.15, cz = 0\<rparr>, velocity = \<lparr>cx = 2, cy = 0, cz = 0\<rparr>,
      radius = 0.15\<rparr>"

definition pushedBall :: Ball where
  "pushedBall =
     \<lparr>position = \<lparr>cx = 4.34 + 9 / 325, cy = 0.15 + 3 / 260, cz = 0\<rparr>,
      velocity = \<lparr>cx = -2, cy = 0, cz = 0\<rparr>, radius = 0.15\<rparr>"

text \<open>The running game with that barrier and that ball.\<close>

definition nearWall :: Game where
  "nearWall =
     \<lparr>balls = [incomingBall], lines = [\<lparr>segments = [wallSegment]\<rparr>], gameStarted = True,
      gameTime = 2.165, isDrawing = False, currentLinePoints = [], ballSpeed = 2.2165,
      ballCount = 1, nextBallSpawn = 5\<rparr>"

section \<open>The loop over the balls\<close>

text \<open>The distance is a finite number or NaN, as \<open>collideSegment\<close> takes it to be.\<close>

lemma pointToLineDistance_cases:
  "(\<exists>d. pointToLineDistance p a b = Fin d) \<or> pointToLineDistance p a b = NaN"
  by (simp add: pointToLineDistance_def Let_def split: jsnum.split)

lemma updateBallsFrom_frame:
  "length (balls (updateBallsFrom n dt g)) = length (balls g) \<and>
   lines (updateBallsFrom n dt g) = lines g \<and>
   gameTime (updateBallsFrom n dt g) = gameTime g \<and>
   ballSpeed (updateBallsFrom n dt g) = ballSpeed g \<and>
   nextBallSpawn (updateBallsFrom n dt g) = nextBallSpawn g \<and>
   isDrawing (updateBallsFrom n dt g) = isDrawing g \<and>
   currentLinePoints (updateBallsFrom n dt g) = currentLinePoints g"
  by (induction n arbitrary: g) (simp_all add: Let_def gameOver_def)

lemma updateBallsFrom_inside:
  "n \<le> length (balls g) \<Longrightarrow>
   (\<And>j. j < n \<Longrightarrow> \<not> outsideBoundary (moveBall dt (balls g ! j))) \<Longrightarrow>
   updateBallsFrom n dt g =
     g\<lparr>balls := map (\<lambda>b. checkBallLineCollision (lines g) (moveBall dt b)) (take n (balls g))
                 @ drop n (balls g)\<rparr>"
proof (induction n arbitrary: g)
  case 0
  then show ?case by simp
next
  case (Suc n)
  let ?f = "\<lambda>b. checkBallLineCollision (lines g) (moveBall dt b)"
  let ?g' = "g\<lparr>balls := (balls g)[n := ?f (balls g ! n)]\<rparr>"
  from Suc.prems have n: "n < length (balls g)" by simp
  have inside: "\<not> outsideBoundary (moveBall dt (balls g ! n))"
    using Suc.prems(2) by simp
  have step: "updateBallsFrom (Suc n) dt g = updateBallsFrom n dt ?g'"
    using inside by (simp add: Let_def)
  have "updateBallsFrom n dt ?g' =
      ?g'\<lparr>balls := map (\<lambda>b. checkBallLineCollision (lines ?g') (moveBall dt b)) (take n (balls ?g'))
                 @ drop n (balls ?g')\<rparr>"
  proof (rule Suc.IH)
    show "n \<le> length (balls ?g')" using n by simp
    fix j assume "j < n"
    then show "\<not> outsideBoundary (moveBall dt (balls ?g' ! j))"
      using Suc.prems(2)[of j] by simp
  qed
  moreover have "drop n ((balls g)[n := ?f (balls g ! n)]) = ?f (balls g ! n) # drop (Suc n) (balls g)"
    using n by (simp add: drop_update_cancel Cons_nth_drop_Suc[symmetric] upd_conv_take_nth_drop)
  moreover have "take (Suc n) (balls g) = take n (balls g) @ [balls g ! n]"
    using n by (simp add: take_Suc_conv_app_nth)
  ultimately show ?case using step by simp
qed

lemma updateBallsFrom_breach:
  "n \<le> length (balls g) \<Longrightarrow> i < n \<Longrightarrow>
   outsideBoundary (moveBall dt (balls g ! i)) \<Longrightarrow>
   (\<And>j. i < j \<Longrightarrow> j < n \<Longrightarrow> \<not> outsideBoundary (moveBall dt (balls g ! j))) \<Longrightarrow>
   updateBallsFrom n dt g =
     gameOver (g\<lparr>balls := take i (balls g) @ [moveBall dt (balls g ! i)]
                 @ map (\<lambda>b. checkBallLineCollision (lines g) (moveBall dt b))
                     (take (n - Suc i) (drop (Suc i) (balls g)))
                 @ drop n (balls g)\<rparr>)"
proof (induction n arbitrary: g)
  case 0
  then show ?case by simp
next
  case (Suc n)
  let ?f = "\<lambda>b. checkBallLineCollision (lines g) (moveBall dt b)"
  from Suc.prems have n: "n < length (balls g)" by simp
  show ?case
  proof (cases "i = n")
    case True
    then show ?thesis using Suc.prems(3) n
      by (simp add: Let_def upd_conv_take_nth_drop)
  next
    case False
    with Suc.prems have i: "i < n" by simp
    let ?g' = "g\<lparr>balls := (balls g)[n := ?f (balls g ! n)]\<rparr>"
    have inside: "\<not> outsideBoundary (moveBall dt (balls g ! n))"
      using Suc.prems(4)[of n] i by simp
    have step: "updateBallsFrom (Suc n) dt g = updateBallsFrom n dt ?g'"
      using inside by (simp add: Let_def)
    have ih: "updateBallsFrom n dt ?g' =
      gameOver (?g'\<lparr>balls := take i (balls ?g') @ [moveBall dt (balls ?g' ! i)]
                 @ map (\<lambda>b. checkBallLineCollision (lines ?g') (moveBall dt b))
                     (take (n - Suc i) (drop (Suc i) (balls ?g')))
                 @ drop n (balls ?g')\<rparr>)"
    proof (rule Suc.IH)
      show "n \<le> length (balls ?g')" using n by simp
      show "i < n" by (rule i)
      show "outsideBoundary (moveBall dt (balls ?g' ! i))" using Suc.prems(3) i by simp
      fix j assume "i < j" "j < n"
      then show "\<not> outsideBoundary (moveBall dt (balls ?g' ! j))"
        using Suc.prems(4)[of j] by simp
    qed
    have d: "drop n ((balls g)[n := ?f (balls g ! n)]) = ?f (balls g ! n) # drop (Suc n) (balls g)"
      using n by (simp add: upd_conv_take_nth_drop)
    have t: "take (Suc n - Suc i) (drop (Suc i) (balls g))
              = take (n - Suc i) (drop (Suc i) (balls g)) @ [balls g ! n]"
    proof -
      have "Suc n - Suc i = Suc (n - Suc i)" using i by simp
      moreover have "n - Suc i < length (drop (Suc i) (balls g))" using n i by simp
      moreover have "drop (Suc i) (balls g) ! (n - Suc i) = balls g ! n" using n i by simp
      ultimately show ?thesis by (simp only: take_Suc_conv_app_nth)
    qed
    have t2: "take (n - Suc i) (drop (Suc i) ((balls g)[n := ?f (balls g ! n)]))
              = take (n - Suc i) (drop (Suc i) (balls g))"
      using n i by (simp add: list_eq_iff_nth_eq)
    show ?thesis using step ih d t t2 i by simp
  qed
qed

lemma updateBalls_inside:
  assumes "\<And>b. b \<in> set (balls g) \<Longrightarrow> \<not> outsideBoundary (moveBall dt b)"
  shows "updateBalls dt g =
           g\<lparr>balls := map (\<lambda>b. checkBallLineCollision (lines g) (moveBall dt b)) (balls g)\<rparr>"
  unfolding updateBalls_def using assms
  by (subst updateBallsFrom_inside) simp_all

lemma updateBalls_breach:
  assumes "i < length (balls g)"
      and "outsideBoundary (moveBall dt (balls g ! i))"
      and "\<And>j. i < j \<Longrightarrow> j < length (balls g) \<Longrightarrow> \<not> outsideBoundary (moveBall dt (balls g ! j))"
  shows "updateBalls dt g =
           gameOver (g\<lparr>balls := take i (balls g) @ [moveBall dt (balls g ! i)]
             @ map (\<lambda>b. checkBallLineCollision (lines g) (moveBall dt b)) (drop (Suc i) (balls g))\<rparr>)"
  unfolding updateBalls_def using assms
  by (subst updateBallsFrom_breach[where i = i]) simp_all

lemma last_breach_exists:
  assumes "\<exists>b\<in>set bs. P b"
  shows "\<exists>i<length bs. P (bs ! i) \<and> (\<forall>j. i < j \<and> j < length bs \<longrightarrow> \<not> P (bs ! j))"
proof -
  let ?S = "{i. i < length bs \<and> P (bs ! i)}"
  have fin: "finite ?S" by simp
  have ne: "?S \<noteq> {}" using assms by (auto simp: in_set_conv_nth)
  let ?m = "Max ?S"
  have m: "?m \<in> ?S" using Max_in[OF fin ne] .
  have "\<forall>j. ?m < j \<and> j < length bs \<longrightarrow> \<not> P (bs ! j)"
  proof (intro allI impI notI)
    fix j assume "?m < j \<and> j < length bs" "P (bs ! j)"
    then have "j \<in> ?S" by simp
    then have "j \<le> ?m" using Max_ge[OF fin] by blast
    with \<open>?m < j \<and> j < length bs\<close> show False by simp
  qed
  with m show ?thesis by blast
qed

lemma rampAndSpawn_frame:
  "gameStarted (rampAndSpawn dt rnd g) = gameStarted g \<and> lines (rampAndSpawn dt rnd g) = lines g"
  by (simp add: rampAndSpawn_def spawnBall_def Let_def)

lemma gameLoop_all_inside:
  assumes "gameStarted g"
      and "\<forall>b\<in>set (balls (rampAndSpawn dt rnd g)). \<not> outsideBoundary (moveBall dt b)"
  shows "gameStarted (gameLoop dt rnd g) \<and>
         balls (gameLoop dt rnd g) =
           map (\<lambda>b. checkBallLineCollision (lines g) (moveBall dt b))
             (balls (rampAndSpawn dt rnd g))"
proof -
  let ?g = "rampAndSpawn dt rnd g"
  have "gameLoop dt rnd g = updateBalls dt ?g" using assms(1) by (simp add: gameLoop_def)
  also have "\<dots> = ?g\<lparr>balls := map (\<lambda>b. checkBallLineCollision (lines ?g) (moveBall dt b))
      (balls ?g)\<rparr>"
    by (rule updateBalls_inside) (use assms(2) in simp)
  finally show ?thesis using assms(1) rampAndSpawn_frame[of dt rnd g] by simp
qed

lemma gameLoop_ends_iff:
  assumes "gameStarted g"
  shows "\<not> gameStarted (gameLoop dt rnd g) \<longleftrightarrow>
           (\<exists>b\<in>set (balls (rampAndSpawn dt rnd g)). outsideBoundary (moveBall dt b))"
proof (cases "\<exists>b\<in>set (balls (rampAndSpawn dt rnd g)). outsideBoundary (moveBall dt b)")
  case True
  let ?g = "rampAndSpawn dt rnd g"
  from last_breach_exists[OF True] obtain i where i: "i < length (balls ?g)"
    "outsideBoundary (moveBall dt (balls ?g ! i))"
    "\<forall>j. i < j \<and> j < length (balls ?g) \<longrightarrow> \<not> outsideBoundary (moveBall dt (balls ?g ! j))"
    by blast
  have "\<not> gameStarted (updateBalls dt ?g)"
    by (subst updateBalls_breach[OF i(1,2)]) (use i(3) in \<open>simp_all add: gameOver_def\<close>)
  with True assms show ?thesis by (simp add: gameLoop_def)
next
  case False
  then show ?thesis using gameLoop_all_inside[OF assms, of dt rnd] by blast
qed




lemma updateBalls_frame:
  "length (balls (updateBalls dt g)) = length (balls g) \<and>
   nextBallSpawn (updateBalls dt g) = nextBallSpawn g"
  using updateBallsFrom_frame[of "length (balls g)" dt g] by (simp add: updateBalls_def)

text \<open>
  Claim C5. On a tick of a running game, with \<open>elapsedTime\<close> the clock after the tick's
  \<open>deltaTime\<close> is added: if \<open>elapsedTime > nextSpawnThreshold\<close>, exactly one ball is
  added and the threshold grows by \<open>max 3 (8 - elapsedTime * 0.1)\<close>; otherwise the
  number of balls and the threshold stay. The increment \<open>spawnInterval\<close> is at least 3
  and does not grow with \<open>elapsedTime\<close>.
\<close>

theorem spawn_schedule:
  assumes "gameStarted g"
  shows "(if gameTime g + dt > nextBallSpawn g
          then length (balls (rampAndSpawn dt rnd g)) = length (balls g) + 1 \<and>
               length (balls (gameLoop dt rnd g)) = length (balls g) + 1 \<and>
               nextBallSpawn (gameLoop dt rnd g) =
                 nextBallSpawn g + max 3 (8 - (gameTime g + dt) * 0.1)
          else length (balls (rampAndSpawn dt rnd g)) = length (balls g) \<and>
               length (balls (gameLoop dt rnd g)) = length (balls g) \<and>
               nextBallSpawn (gameLoop dt rnd g) = nextBallSpawn g)
       \<and> 3 \<le> spawnInterval t
       \<and> (t \<le> t' \<longrightarrow> spawnInterval t' \<le> spawnInterval t)"
proof -
  have loop: "gameLoop dt rnd g = updateBalls dt (rampAndSpawn dt rnd g)"
    using assms by (simp add: gameLoop_def)
  show ?thesis
    unfolding loop using updateBalls_frame[of dt "rampAndSpawn dt rnd g"]
    by (auto simp add: rampAndSpawn_def spawnBall_def spawnInterval_def Let_def)
qed

text \<open>
  The tick of \<open>beforeSpawn\<close> that passes the threshold 5 at the clock 5.05: a second
  ball, and the threshold 12.495.
\<close>

theorem spawn_schedule_witness:
  "gameStarted beforeSpawn \<and>
   length (balls (gameLoop (1/10) 0 beforeSpawn)) = 2 \<and>
   nextBallSpawn (gameLoop (1/10) 0 beforeSpawn) = 12.495 \<and>
   3 \<le> spawnInterval 100 \<and> spawnInterval 60 \<le> spawnInterval 10"
proof -
  have s: "gameStarted beforeSpawn" by (simp add: beforeSpawn_def)
  show ?thesis
    using spawn_schedule[OF s, of "1/10" 0 100 60] spawn_schedule[OF s, of "1/10" 0 10 60] s
    by (simp add: beforeSpawn_def spawnInterval_def)
qed

text \<open>
  Claim C7. \<open>spawnBall\<close> appends the ball at the origin with velocity
  \<open>(cos \<theta>, sin \<theta>) * ballSpeed\<close> and leaves the balls there were as they are. In a
  tick, the speed ramp and the spawn leave the old balls unchanged, and the new ball
  gets the speed \<open>2 + elapsedTime * 0.1\<close> of the clock just advanced; at a start the
  clock is 0 and the speed 2.
\<close>

theorem spawn_frame:
  "balls (spawnBall rnd g) = balls g @ [spawnedBall (rnd * pi * 2) (ballSpeed g)]
   \<and> balls (rampAndSpawn dt rnd g) =
       (if gameTime g + dt > nextBallSpawn g
        then balls g @ [spawnedBall (rnd * pi * 2) (2 + (gameTime g + dt) * 0.1)]
        else balls g)
   \<and> ballSpeed (rampAndSpawn dt rnd g) = 2 + gameTime (rampAndSpawn dt rnd g) * 0.1
   \<and> balls (resetGame rnd g) = [spawnedBall (rnd * pi * 2) 2]
   \<and> ballSpeed (resetGame rnd g) = 2 + gameTime (resetGame rnd g) * 0.1"
  by (simp add: spawnBall_def rampAndSpawn_def resetGame_def spawnedBall_def
      multiplyScalar_def Let_def)

lemma gameLoop_resetGame_zero: "gameLoop 0 rnd' (resetGame rnd g) = resetGame rnd g"
  by (simp add: gameLoop_def resetGame_def spawnBall_def rampAndSpawn_def updateBalls_def
      Let_def moveBall_def outsideBoundary_def boundarySize_def worldSize_def vadd_def
      multiplyScalar_def checkBallLineCollision_def)

lemma sessionState_startGame:
  "sessionState (startGame rnd dt rnd' g) = sessionState (startGame rnd dt rnd' g')"
  by (simp add: sessionState_def startGame_def gameLoop_def resetGame_def spawnBall_def
      rampAndSpawn_def updateBalls_def Let_def gameOver_def checkBallLineCollision_def)

lemma restartGame_values:
  "gameTime (restartGame rnd dt rnd' g) = dt \<and>
   ballSpeed (restartGame rnd dt rnd' g) = 2 + dt * 0.1 \<and>
   nextBallSpawn (restartGame rnd dt rnd' g) = (if dt > 5 then 5 + spawnInterval dt else 5) \<and>
   length (balls (restartGame rnd dt rnd' g)) = (if dt > 5 then 2 else 1) \<and>
   lines (restartGame rnd dt rnd' g) = []"
proof -
  let ?g = "rampAndSpawn dt rnd' (resetGame rnd g)"
  have "gameStarted (resetGame rnd g)" by (simp add: resetGame_def spawnBall_def Let_def)
  then have r: "restartGame rnd dt rnd' g = updateBallsFrom (length (balls ?g)) dt ?g"
    by (simp add: restartGame_def startGame_def gameLoop_def updateBalls_def)
  have "gameTime ?g = dt \<and> ballSpeed ?g = 2 + dt * 0.1 \<and>
      nextBallSpawn ?g = (if dt > 5 then 5 + spawnInterval dt else 5) \<and>
      length (balls ?g) = (if dt > 5 then 2 else 1) \<and> lines ?g = []"
    by (simp add: rampAndSpawn_def resetGame_def spawnBall_def Let_def)
  then show ?thesis
    unfolding r using updateBallsFrom_frame[of "length (balls ?g)" dt ?g] by simp
qed

text \<open>
  Claim C8, amended. From any state, a game-over state included, \<open>restartGame\<close> gives
  the session state that \<open>startGame\<close> gives from the state of a new game, for the same
  inputs. It resets the session, to a running game with \<open>elapsedTime = 0\<close>,
  \<open>ballSpeed = 2\<close>, \<open>nextBallSpawn = 5\<close>, one ball and no barrier, and then runs the
  first tick itself, with the time \<open>dt\<close> between its two clock readings: what it returns
  has \<open>elapsedTime = dt\<close> and \<open>ballSpeed = 2 + dt * 0.1\<close>, no barrier, and for
  \<open>dt \<le> 5\<close> the threshold 5 and one ball. For \<open>dt = 0\<close> it returns the reset state.
\<close>

theorem restart_is_fresh_start:
  "sessionState (restartGame rnd dt rnd' g) = sessionState (startGame rnd dt rnd' initialGame)
   \<and> restartGame rnd dt rnd' g = gameLoop dt rnd' (resetGame rnd g)
   \<and> restartGame rnd 0 rnd' g = resetGame rnd g
   \<and> gameStarted (resetGame rnd g)
   \<and> gameTime (resetGame rnd g) = 0
   \<and> ballSpeed (resetGame rnd g) = 2
   \<and> nextBallSpawn (resetGame rnd g) = 5
   \<and> length (balls (resetGame rnd g)) = 1
   \<and> lines (resetGame rnd g) = []
   \<and> gameTime (restartGame rnd dt rnd' g) = dt
   \<and> ballSpeed (restartGame rnd dt rnd' g) = 2 + dt * 0.1
   \<and> nextBallSpawn (restartGame rnd dt rnd' g) = (if dt > 5 then 5 + spawnInterval dt else 5)
   \<and> length (balls (restartGame rnd dt rnd' g)) = (if dt > 5 then 2 else 1)
   \<and> lines (restartGame rnd dt rnd' g) = []"
proof -
  have "sessionState (restartGame rnd dt rnd' g) = sessionState (startGame rnd dt rnd' initialGame)"
    using sessionState_startGame[of rnd dt rnd' g initialGame] by (simp add: restartGame_def)
  moreover have "restartGame rnd dt rnd' g = gameLoop dt rnd' (resetGame rnd g)"
    by (simp add: restartGame_def startGame_def)
  moreover have "restartGame rnd 0 rnd' g = resetGame rnd g"
    using gameLoop_resetGame_zero[of rnd' rnd g] by (simp add: restartGame_def startGame_def)
  moreover have "gameStarted (resetGame rnd g) \<and> gameTime (resetGame rnd g) = 0 \<and>
      ballSpeed (resetGame rnd g) = 2 \<and> nextBallSpawn (resetGame rnd g) = 5 \<and>
      length (balls (resetGame rnd g)) = 1 \<and> lines (resetGame rnd g) = []"
    by (simp add: resetGame_def spawnBall_def Let_def)
  ultimately show ?thesis using restartGame_values[of rnd dt rnd' g] by simp
qed

text \<open>
  Claim C8 as stated fails: restarting the game-over state \<open>endedGame\<close>, with a
  thousandth of a second between the two clock readings, returns \<open>elapsedTime = 0.001\<close>
  and \<open>ballSpeed = 2.0001\<close>, not 0 and 2.
\<close>

theorem restart_is_fresh_start_counterexample:
  "\<not> gameStarted endedGame \<and>
   gameTime (restartGame 0 (1 / 1000) 0 endedGame) = 1 / 1000 \<and>
   gameTime (restartGame 0 (1 / 1000) 0 endedGame) \<noteq> 0 \<and>
   ballSpeed (restartGame 0 (1 / 1000) 0 endedGame) = 20001 / 10000 \<and>
   ballSpeed (restartGame 0 (1 / 1000) 0 endedGame) \<noteq> 2"
  using restartGame_values[of 0 "1 / 1000" 0 endedGame] by (simp add: endedGame_def)

lemma lineSegmentsOf_snoc:
  "ps \<noteq> [] \<Longrightarrow> lineSegmentsOf (ps @ [q]) = lineSegmentsOf ps @ [\<lparr>start = last ps, endp = q\<rparr>]"
  by (induction ps rule: lineSegmentsOf.induct) simp_all

lemma updateBalls_frame_all:
  "lines (updateBalls dt g) = lines g \<and>
   isDrawing (updateBalls dt g) = isDrawing g \<and>
   currentLinePoints (updateBalls dt g) = currentLinePoints g"
  using updateBallsFrom_frame[of "length (balls g)" dt g] by (simp add: updateBalls_def)

lemma gameInvariant_initial: "gameInvariant initialGame"
  by (simp add: gameInvariant_def initialGame_def barriersInBounds_def)

lemma gameInvariant_gameLoop:
  assumes "gameInvariant g"
  shows "gameInvariant (gameLoop dt rnd g)"
proof (cases "gameStarted g")
  case False
  then show ?thesis using assms by (simp add: gameLoop_def)
next
  case True
  let ?g = "rampAndSpawn dt rnd g"
  have r: "lines ?g = lines g" "isDrawing ?g = isDrawing g"
      "currentLinePoints ?g = currentLinePoints g"
    by (simp_all add: rampAndSpawn_def spawnBall_def Let_def)
  have "gameLoop dt rnd g = updateBalls dt ?g" using True by (simp add: gameLoop_def)
  then show ?thesis
    using assms True r updateBalls_frame_all[of dt ?g]
    by (simp add: gameInvariant_def barriersInBounds_def)
qed

lemma gameInvariant_resetGame:
  assumes "gameInvariant g"
  shows "gameInvariant (resetGame rnd g)"
  using assms by (simp add: gameInvariant_def resetGame_def spawnBall_def Let_def barriersInBounds_def)

lemma gameInvariant_onPointerDown:
  assumes "gameInvariant g"
  shows "gameInvariant (onPointerDown pos g)"
  using assms by (simp add: gameInvariant_def onPointerDown_def barriersInBounds_def)

lemma gameInvariant_onPointerMove:
  assumes "gameInvariant g" and "onPointerMove pos g = Some g'"
  shows "gameInvariant g'"
proof (cases "\<not> gameStarted g \<or> \<not> isDrawing g")
  case True
  then show ?thesis using assms by (simp add: onPointerMove_def)
next
  case False
  then have ne: "currentLinePoints g \<noteq> []" using assms(1) by (simp add: gameInvariant_def)
  let ?q = "\<lparr>cx = fst pos, cy = 0.1, cz = snd pos\<rparr>"
  show ?thesis
  proof (cases "distanceTo (last (currentLinePoints g)) ?q > 0.1")
    case True
    then have g': "g' = g\<lparr>currentLinePoints := currentLinePoints g @ [?q]\<rparr>"
      using assms(2) False ne by (simp add: onPointerMove_def Let_def)
    have "cy (last (currentLinePoints g)) = 0.1"
      using assms(1) ne by (simp add: gameInvariant_def list_all_iff)
    then have "segmentDrawn \<lparr>start = last (currentLinePoints g), endp = ?q\<rparr>"
      using True by (simp add: segmentDrawn_def)
    then show ?thesis
      using assms(1) ne unfolding g'
      by (simp add: gameInvariant_def lineSegmentsOf_snoc barriersInBounds_def)
  next
    case no: False
    then have "g' = g" using assms(2) False ne by (simp add: onPointerMove_def Let_def)
    then show ?thesis using assms(1) by simp
  qed
qed

lemma gameInvariant_finalizeLine:
  assumes "gameInvariant g"
  shows "gameInvariant (finalizeLine g)"
  using assms
  by (simp add: gameInvariant_def finalizeLine_def checkLineOutOfBounds_def gameOver_def
      Let_def barriersInBounds_def)

lemma gameInvariant_onPointerUp:
  assumes "gameInvariant g"
  shows "gameInvariant (onPointerUp g)"
proof -
  have a: "gameInvariant (g\<lparr>isDrawing := False\<rparr>)"
    using assms by (simp add: gameInvariant_def barriersInBounds_def)
  have b: "gameInvariant h \<Longrightarrow> \<not> isDrawing h \<Longrightarrow>
      gameInvariant (h\<lparr>currentLinePoints := []\<rparr>)" for h
    by (simp add: gameInvariant_def barriersInBounds_def)
  have c: "\<not> isDrawing (finalizeLine (g\<lparr>isDrawing := False\<rparr>))"
    by (simp add: finalizeLine_def checkLineOutOfBounds_def gameOver_def Let_def)
  show ?thesis
    using a b c gameInvariant_finalizeLine[OF a] assms
    by (simp add: onPointerUp_def Let_def)
qed

lemma reachable_invariant: "reachable g \<Longrightarrow> gameInvariant g"
proof (induction rule: reachable.induct)
  case initial
  show ?case by (rule gameInvariant_initial)
next
  case (start g rnd deltaTime rnd')
  then show ?case
    by (simp add: startGame_def gameInvariant_gameLoop gameInvariant_resetGame)
next
  case (restart g rnd deltaTime rnd')
  then show ?case
    by (simp add: restartGame_def startGame_def gameInvariant_gameLoop gameInvariant_resetGame)
next
  case (tick g deltaTime rnd)
  then show ?case by (simp add: gameInvariant_gameLoop)
next
  case (pointerDown g pos)
  then show ?case by (simp add: gameInvariant_onPointerDown)
next
  case (pointerMove g pos g')
  then show ?case using gameInvariant_onPointerMove by blast
next
  case (pointerUp g)
  then show ?case by (simp add: gameInvariant_onPointerUp)
qed

text \<open>In a reachable game \<open>onPointerMove\<close> does not throw.\<close>

lemma onPointerMove_returns:
  "reachable g \<Longrightarrow> \<exists>g'. onPointerMove pos g = Some g'"
  by (drule reachable_invariant)
     (auto simp add: gameInvariant_def onPointerMove_def Let_def)

text \<open>
  The segments \<open>finalizeLine\<close> makes, by the index of its loop, and the test of
  \<open>checkLineOutOfBounds\<close> on them in terms of the points of the buffer.
\<close>

lemma lineSegmentsOf_nth:
  "lineSegmentsOf ps = map (\<lambda>i. \<lparr>start = ps ! i, endp = ps ! Suc i\<rparr>) [0..<length ps - 1]"
proof (induction ps rule: lineSegmentsOf.induct)
  case (1 p q ps)
  have "map (\<lambda>i. \<lparr>start = (p # q # ps) ! i, endp = (p # q # ps) ! Suc i\<rparr>) [0..<Suc (length ps)]
      = \<lparr>start = p, endp = q\<rparr>
        # map (\<lambda>i. \<lparr>start = (q # ps) ! i, endp = (q # ps) ! Suc i\<rparr>) [0..<length ps]"
    by (simp only: map_upt_Suc) simp
  then show ?case using 1 by simp
qed simp_all

lemma lineSegmentsOf_out_of_bounds:
  "2 \<le> length ps \<Longrightarrow>
   list_ex segmentOutOfBounds (lineSegmentsOf ps) \<longleftrightarrow>
     (\<exists>p\<in>set ps. \<bar>cx p\<bar> > boundarySize / 2 \<or> \<bar>cz p\<bar> > boundarySize / 2)"
proof (induction ps rule: lineSegmentsOf.induct)
  case (1 p q ps)
  show ?case
  proof (cases ps)
    case Nil
    then show ?thesis by (auto simp add: segmentOutOfBounds_def)
  next
    case (Cons r rs)
    then have "2 \<le> length (q # ps)" by simp
    from 1(1)[OF this] show ?thesis by (auto simp add: segmentOutOfBounds_def)
  qed
qed simp_all

text \<open>
  Claim C4. \<open>onPointerUp\<close> finalizes the drawn line in a running game that is drawing,
  with two points or more in the buffer; it calls \<open>finalizeLine\<close> once it has cleared
  the drawing flag. The barrier of the consecutive pairs of the buffer's points is
  added, whether or not the game ends with it, and the game stays running if and only
  if every point of the buffer, that is every end of every segment of the new barrier,
  has \<open>\<bar>x\<bar>\<close> and \<open>\<bar>z\<bar>\<close> at most \<open>boundarySize / 2\<close>.
\<close>

theorem finalize_line_bounds:
  assumes "reachable g" and "gameStarted g" and "isDrawing g"
      and "2 \<le> length (currentLinePoints g)"
  shows "onPointerUp g = (finalizeLine (g\<lparr>isDrawing := False\<rparr>))\<lparr>currentLinePoints := []\<rparr>
       \<and> lines (finalizeLine (g\<lparr>isDrawing := False\<rparr>)) =
           lines g @ [\<lparr>segments =
             map (\<lambda>i. \<lparr>start = currentLinePoints g ! i, endp = currentLinePoints g ! Suc i\<rparr>)
               [0..<length (currentLinePoints g) - 1]\<rparr>]
       \<and> (gameStarted (finalizeLine (g\<lparr>isDrawing := False\<rparr>)) \<longleftrightarrow>
            (\<forall>p\<in>set (currentLinePoints g).
               \<bar>cx p\<bar> \<le> boundarySize / 2 \<and> \<bar>cz p\<bar> \<le> boundarySize / 2))
       \<and> (gameStarted (finalizeLine (g\<lparr>isDrawing := False\<rparr>)) \<longleftrightarrow>
            (\<forall>i < length (currentLinePoints g) - 1.
               \<bar>cx (currentLinePoints g ! i)\<bar> \<le> boundarySize / 2 \<and>
               \<bar>cz (currentLinePoints g ! i)\<bar> \<le> boundarySize / 2 \<and>
               \<bar>cx (currentLinePoints g ! Suc i)\<bar> \<le> boundarySize / 2 \<and>
               \<bar>cz (currentLinePoints g ! Suc i)\<bar> \<le> boundarySize / 2))
       \<and> lines (onPointerUp g) = lines (finalizeLine (g\<lparr>isDrawing := False\<rparr>))
       \<and> gameStarted (onPointerUp g) = gameStarted (finalizeLine (g\<lparr>isDrawing := False\<rparr>))"
proof -
  let ?g = "g\<lparr>isDrawing := False\<rparr>"
  let ?pts = "currentLinePoints g"
  let ?segs = "lineSegmentsOf ?pts"
  have old: "\<not> list_ex (\<lambda>line. list_ex segmentOutOfBounds (segments line)) (lines g)"
    using reachable_invariant[OF assms(1)] assms(2)
    by (simp add: gameInvariant_def barriersInBounds_def)
  have up: "onPointerUp g = (finalizeLine ?g)\<lparr>currentLinePoints := []\<rparr>"
    using assms(2,3,4) by (simp add: onPointerUp_def Let_def)
  have fin: "finalizeLine ?g =
      checkLineOutOfBounds (?g\<lparr>lines := lines g @ [\<lparr>segments = ?segs\<rparr>]\<rparr>)"
    using assms(4) by (simp add: finalizeLine_def Let_def)
  have "lines (finalizeLine ?g) = lines g @ [\<lparr>segments = ?segs\<rparr>]"
    unfolding fin by (simp add: checkLineOutOfBounds_def gameOver_def)
  then have ls: "lines (finalizeLine ?g) =
      lines g @ [\<lparr>segments = map (\<lambda>i. \<lparr>start = ?pts ! i, endp = ?pts ! Suc i\<rparr>)
        [0..<length ?pts - 1]\<rparr>]"
    by (simp only: lineSegmentsOf_nth[symmetric])
  have segs: "gameStarted (finalizeLine ?g) \<longleftrightarrow> \<not> list_ex segmentOutOfBounds ?segs"
    unfolding fin using old assms(2) by (simp add: checkLineOutOfBounds_def gameOver_def)
  note segs
  also have "\<dots> \<longleftrightarrow> \<not> (\<exists>p\<in>set ?pts. \<bar>cx p\<bar> > boundarySize / 2 \<or> \<bar>cz p\<bar> > boundarySize / 2)"
    by (simp only: lineSegmentsOf_out_of_bounds[OF assms(4)])
  also have "\<dots> \<longleftrightarrow> (\<forall>p\<in>set ?pts. \<bar>cx p\<bar> \<le> boundarySize / 2 \<and> \<bar>cz p\<bar> \<le> boundarySize / 2)"
    by (simp only: bex_simps de_Morgan_disj not_less)
  finally have gs: "gameStarted (finalizeLine ?g) \<longleftrightarrow>
      (\<forall>p\<in>set ?pts. \<bar>cx p\<bar> \<le> boundarySize / 2 \<and> \<bar>cz p\<bar> \<le> boundarySize / 2)" .
  have "\<not> list_ex segmentOutOfBounds ?segs \<longleftrightarrow>
      (\<forall>i < length ?pts - 1.
         \<bar>cx (?pts ! i)\<bar> \<le> boundarySize / 2 \<and> \<bar>cz (?pts ! i)\<bar> \<le> boundarySize / 2 \<and>
         \<bar>cx (?pts ! Suc i)\<bar> \<le> boundarySize / 2 \<and> \<bar>cz (?pts ! Suc i)\<bar> \<le> boundarySize / 2)"
    by (subst lineSegmentsOf_nth) (auto simp add: list_ex_iff segmentOutOfBounds_def not_less)
  with segs have ends: "gameStarted (finalizeLine ?g) \<longleftrightarrow>
      (\<forall>i < length ?pts - 1.
         \<bar>cx (?pts ! i)\<bar> \<le> boundarySize / 2 \<and> \<bar>cz (?pts ! i)\<bar> \<le> boundarySize / 2 \<and>
         \<bar>cx (?pts ! Suc i)\<bar> \<le> boundarySize / 2 \<and> \<bar>cz (?pts ! Suc i)\<bar> \<le> boundarySize / 2)"
    by simp
  have "lines (onPointerUp g) = lines (finalizeLine ?g)"
    and "gameStarted (onPointerUp g) = gameStarted (finalizeLine ?g)"
    unfolding up by simp_all
  with up ls gs ends show ?thesis by blast
qed

lemma reachable_startedGame:
  "reachable
     \<lparr>balls = [\<lparr>position = \<lparr>cx = 0, cy = 0.15, cz = 0\<rparr>,
                velocity = \<lparr>cx = 2, cy = 0, cz = 0\<rparr>, radius = 0.15\<rparr>],
      lines = [], gameStarted = True, gameTime = 0, isDrawing = True,
      currentLinePoints = [\<lparr>cx = 0, cy = 0.1, cz = 0\<rparr>],
      ballSpeed = 2, ballCount = 1, nextBallSpawn = 5\<rparr>"
proof -
  let ?b = "\<lparr>position = \<lparr>cx = 0, cy = 0.15, cz = 0\<rparr>,
             velocity = \<lparr>cx = 2, cy = 0, cz = 0\<rparr>, radius = 0.15\<rparr>"
  let ?g1 = "\<lparr>balls = [?b], lines = [], gameStarted = True, gameTime = 0, isDrawing = False,
      currentLinePoints = [], ballSpeed = 2, ballCount = 1, nextBallSpawn = 5\<rparr>"
  have "startGame 0 0 0 initialGame = ?g1"
    by (simp add: startGame_def gameLoop_resetGame_zero)
       (simp add: resetGame_def spawnBall_def initialGame_def)
  then have 1: "reachable ?g1"
    using reachable.start[OF reachable.initial, of 0 0 0] by simp
  show ?thesis using reachable.pointerDown[OF 1, of "(0, 0)"] by (simp add: onPointerDown_def)
qed

lemma reachable_drawnTwoPoints: "reachable drawnTwoPoints"
proof -
  let ?g2 = "\<lparr>balls = [\<lparr>position = \<lparr>cx = 0, cy = 0.15, cz = 0\<rparr>,
                velocity = \<lparr>cx = 2, cy = 0, cz = 0\<rparr>, radius = 0.15\<rparr>],
      lines = [], gameStarted = True, gameTime = 0, isDrawing = True,
      currentLinePoints = [\<lparr>cx = 0, cy = 0.1, cz = 0\<rparr>],
      ballSpeed = 2, ballCount = 1, nextBallSpawn = 5\<rparr>"
  have "onPointerMove (1, 0) ?g2 = Some drawnTwoPoints"
    by (simp add: onPointerMove_def drawnTwoPoints_def distanceTo_def distanceToSquared_def)
  then show ?thesis using reachable.pointerMove[OF reachable_startedGame] by blast
qed

lemma reachable_drawnOutside: "reachable drawnOutside"
proof -
  let ?g2 = "\<lparr>balls = [\<lparr>position = \<lparr>cx = 0, cy = 0.15, cz = 0\<rparr>,
                velocity = \<lparr>cx = 2, cy = 0, cz = 0\<rparr>, radius = 0.15\<rparr>],
      lines = [], gameStarted = True, gameTime = 0, isDrawing = True,
      currentLinePoints = [\<lparr>cx = 0, cy = 0.1, cz = 0\<rparr>],
      ballSpeed = 2, ballCount = 1, nextBallSpawn = 5\<rparr>"
  have "sqrt (529 / 25) = 23 / 5"
    by (rule real_sqrt_unique) (simp_all add: power2_eq_square)
  then have "onPointerMove (4.6, 0) ?g2 = Some drawnOutside"
    by (simp add: onPointerMove_def drawnOutside_def distanceTo_def distanceToSquared_def)
  then show ?thesis using reachable.pointerMove[OF reachable_startedGame] by blast
qed

text \<open>
  Releasing the pointer in \<open>drawnTwoPoints\<close> and in \<open>drawnOutside\<close>, states the handlers
  lead to: each adds the barrier of its one segment; the first line is within the
  boundary and the game goes on, the second ends at \<open>x = 4.6\<close> and the game is over.
\<close>

theorem finalize_line_bounds_witness:
  "reachable drawnTwoPoints \<and> gameStarted drawnTwoPoints \<and> isDrawing drawnTwoPoints \<and>
   2 \<le> length (currentLinePoints drawnTwoPoints) \<and>
   lines (onPointerUp drawnTwoPoints) =
     [\<lparr>segments = [\<lparr>start = \<lparr>cx = 0, cy = 0.1, cz = 0\<rparr>, endp = \<lparr>cx = 1, cy = 0.1, cz = 0\<rparr>\<rparr>]\<rparr>] \<and>
   gameStarted (onPointerUp drawnTwoPoints) \<and>
   reachable drawnOutside \<and> gameStarted drawnOutside \<and> isDrawing drawnOutside \<and>
   2 \<le> length (currentLinePoints drawnOutside) \<and>
   lines (onPointerUp drawnOutside) =
     [\<lparr>segments = [\<lparr>start = \<lparr>cx = 0, cy = 0.1, cz = 0\<rparr>, endp = \<lparr>cx = 4.6, cy = 0.1, cz = 0\<rparr>\<rparr>]\<rparr>] \<and>
   \<not> gameStarted (onPointerUp drawnOutside)"
proof -
  have s: "gameStarted drawnTwoPoints" and d: "isDrawing drawnTwoPoints"
    and l: "2 \<le> length (currentLinePoints drawnTwoPoints)"
    by (simp_all add: drawnTwoPoints_def)
  have s': "gameStarted drawnOutside" and d': "isDrawing drawnOutside"
    and l': "2 \<le> length (currentLinePoints drawnOutside)"
    by (simp_all add: drawnOutside_def)
  have a: "lines (onPointerUp drawnTwoPoints) =
     [\<lparr>segments = [\<lparr>start = \<lparr>cx = 0, cy = 0.1, cz = 0\<rparr>, endp = \<lparr>cx = 1, cy = 0.1, cz = 0\<rparr>\<rparr>]\<rparr>] \<and>
     gameStarted (onPointerUp drawnTwoPoints)"
    using finalize_line_bounds[OF reachable_drawnTwoPoints s d l]
    by (simp add: drawnTwoPoints_def boundarySize_def worldSize_def)
  have b: "lines (onPointerUp drawnOutside) =
     [\<lparr>segments = [\<lparr>start = \<lparr>cx = 0, cy = 0.1, cz = 0\<rparr>, endp = \<lparr>cx = 4.6, cy = 0.1, cz = 0\<rparr>\<rparr>]\<rparr>] \<and>
     \<not> gameStarted (onPointerUp drawnOutside)"
    using finalize_line_bounds[OF reachable_drawnOutside s' d' l']
    by (simp add: drawnOutside_def boundarySize_def worldSize_def)
  from reachable_drawnTwoPoints s d l a reachable_drawnOutside s' d' l' b show ?thesis by blast
qed

section \<open>Geometry: reflection and distance\<close>

lemma vlength_eq_sqrt_lengthSq: "vlength a = sqrt (lengthSq a)"
  by (simp add: vlength_def lengthSq_def)

lemma lengthSq_nonneg: "0 \<le> lengthSq a"
  by (simp add: lengthSq_def)

lemma lengthSq_reflect:
  assumes "lengthSq n = 1"
  shows "lengthSq (reflect v n) = lengthSq v"
proof -
  let ?d = "vdot v n"
  have "lengthSq (reflect v n) = lengthSq v + 4 * ?d * ?d * (lengthSq n - 1)"
    by (simp add: reflect_def Let_def lengthSq_def vsub_def multiplyScalar_def vdot_def
        algebra_simps)
  then show ?thesis using assms by simp
qed

lemma vlength_reflect:
  assumes "vlength n = 1"
  shows "vlength (reflect v n) = vlength v"
proof -
  from assms have "lengthSq n = 1" by (simp add: vlength_eq_sqrt_lengthSq)
  then show ?thesis by (simp add: vlength_eq_sqrt_lengthSq lengthSq_reflect)
qed

lemma lengthSq_zero_iff: "lengthSq a = 0 \<longleftrightarrow> a = \<lparr>cx = 0, cy = 0, cz = 0\<rparr>"
proof
  assume "lengthSq a = 0"
  then have "cx a * cx a + (cy a * cy a + cz a * cz a) = 0" by (simp add: lengthSq_def)
  then have "cx a = 0 \<and> cy a = 0 \<and> cz a = 0"
    by (simp add: add_nonneg_eq_0_iff)
  then show "a = \<lparr>cx = 0, cy = 0, cz = 0\<rparr>" by simp
next
  assume "a = \<lparr>cx = 0, cy = 0, cz = 0\<rparr>"
  then show "lengthSq a = 0" by (simp add: lengthSq_def)
qed

lemma vsub_zero_iff: "vsub b a = \<lparr>cx = 0, cy = 0, cz = 0\<rparr> \<longleftrightarrow> a = b"
  by (auto simp add: vsub_def)

lemma lengthSq_vsub_pos: "a \<noteq> b \<Longrightarrow> 0 < lengthSq (vsub b a)"
  using lengthSq_nonneg[of "vsub b a"] lengthSq_zero_iff[of "vsub b a"] vsub_zero_iff[of b a]
  by (simp add: less_le)

lemma vlength_vnormalize:
  assumes "lengthSq a \<noteq> 0"
  shows "vlength (vnormalize a) = 1"
proof -
  let ?L = "vlength a"
  have pos: "0 < lengthSq a" using assms lengthSq_nonneg[of a] by simp
  then have L: "0 < ?L" by (simp add: vlength_eq_sqrt_lengthSq)
  have LL: "?L * ?L = lengthSq a" using pos by (simp add: vlength_eq_sqrt_lengthSq)
  have "lengthSq (vnormalize a) = lengthSq a / (?L * ?L)"
    using L by (simp add: vnormalize_def divideScalar_def multiplyScalar_def lengthSq_def
        field_simps)
  then have "lengthSq (vnormalize a) = 1" using LL pos by simp
  then show ?thesis by (simp add: vlength_eq_sqrt_lengthSq)
qed

lemma vlength_segmentNormal:
  assumes "start segment \<noteq> endp segment" and "cy (start segment) = cy (endp segment)"
  shows "vlength (segmentNormal segment) = 1"
proof -
  let ?w = "vsub (endp segment) (start segment)"
  have ne: "lengthSq ?w \<noteq> 0" using lengthSq_vsub_pos[OF assms(1)] by simp
  have y: "cy (vnormalize ?w) = 0"
    using assms(2) by (simp add: vnormalize_def divideScalar_def multiplyScalar_def vsub_def)
  have "lengthSq (segmentNormal segment) = lengthSq (vnormalize ?w)"
    using y by (simp add: segmentNormal_def Let_def lengthSq_def)
  then show ?thesis
    using vlength_vnormalize[OF ne] by (simp add: vlength_eq_sqrt_lengthSq)
qed

lemma segmentDrawn_nondegenerate:
  assumes "segmentDrawn segment"
  shows "start segment \<noteq> endp segment \<and> cy (start segment) = cy (endp segment)"
proof -
  have "distanceTo (start segment) (start segment) = 0"
    by (simp add: distanceTo_def distanceToSquared_def)
  then show ?thesis using assms by (auto simp add: segmentDrawn_def)
qed

text \<open>
  Claim C6. For a normal \<open>n\<close> of length 1, \<open>v - 2 (v \<cdot> n) n\<close> has the length of \<open>v\<close>.
  The normal the resolver uses, \<open>(- dir.z, 0, dir.x)\<close> for the normalized direction
  \<open>dir\<close> of the segment, has length 1 when the two ends of the segment differ and lie at
  the same height, as they do for every segment the pointer handlers make; so a
  collision with such a segment leaves the speed of the ball as it is.
\<close>

theorem reflection_preserves_norm:
  "(vlength n = 1 \<longrightarrow> vlength (reflect v n) = vlength v)
   \<and> (start segment \<noteq> endp segment \<and> cy (start segment) = cy (endp segment) \<longrightarrow>
        vlength (segmentNormal segment) = 1)
   \<and> (segmentDrawn segment \<longrightarrow>
        vlength (velocity (collideSegment ball segment)) = vlength (velocity ball))"
proof -
  have "vlength (velocity (collideSegment ball segment)) = vlength (velocity ball)"
    if "segmentDrawn segment"
  proof -
    have "vlength (segmentNormal segment) = 1"
      using segmentDrawn_nondegenerate[OF that] vlength_segmentNormal by blast
    then show ?thesis
      by (simp add: collideSegment_def Let_def vlength_reflect split: jsnum.split)
  qed
  then show ?thesis using vlength_reflect vlength_segmentNormal by blast
qed

text \<open>
  The reflection of \<open>(3, 0, 4)\<close> at the normal \<open>(0, 0, 1)\<close>, and a collision with the
  segment \<open>unitX\<close>.
\<close>

theorem reflection_preserves_norm_witness:
  "vlength \<lparr>cx = 0, cy = 0, cz = 1\<rparr> = 1 \<and>
   vlength (reflect \<lparr>cx = 3, cy = 0, cz = 4\<rparr> \<lparr>cx = 0, cy = 0, cz = 1\<rparr>)
     = vlength \<lparr>cx = 3, cy = 0, cz = 4\<rparr> \<and>
   start unitX \<noteq> endp unitX \<and> cy (start unitX) = cy (endp unitX) \<and>
   vlength (segmentNormal unitX) = 1 \<and>
   segmentDrawn unitX \<and>
   vlength (velocity (collideSegment
      \<lparr>position = \<lparr>cx = 0.5, cy = 0.15, cz = 0.1\<rparr>, velocity = \<lparr>cx = 3, cy = 0, cz = 4\<rparr>,
       radius = 0.15\<rparr> unitX)) = vlength \<lparr>cx = 3, cy = 0, cz = 4\<rparr>"
proof -
  have n: "vlength \<lparr>cx = 0, cy = 0, cz = 1\<rparr> = 1" by (simp add: vlength_def)
  have s: "start unitX \<noteq> endp unitX \<and> cy (start unitX) = cy (endp unitX)"
    by (simp add: unitX_def)
  have d: "segmentDrawn unitX"
    by (simp add: unitX_def segmentDrawn_def distanceTo_def distanceToSquared_def)
  show ?thesis
    using reflection_preserves_norm[of "\<lparr>cx = 0, cy = 0, cz = 1\<rparr>" "\<lparr>cx = 3, cy = 0, cz = 4\<rparr>" unitX
        "\<lparr>position = \<lparr>cx = 0.5, cy = 0.15, cz = 0.1\<rparr>, velocity = \<lparr>cx = 3, cy = 0, cz = 4\<rparr>,
          radius = 0.15\<rparr>"] n s d
    by simp
qed

lemma jsclamp_finite:
  "l \<noteq> 0 \<Longrightarrow> jsmax (Fin 0) (jsmin (Fin 1) (jsdiv c l)) = Fin (max 0 (min 1 (c / l)))"
  by (simp add: jsdiv_def)

lemma pointToLineDistance_degenerate: "pointToLineDistance p a a = NaN"
  by (simp add: pointToLineDistance_def Let_def jsdiv_def vsub_def vdot_def lengthSq_def)

lemma pointToLineDistance_finite:
  assumes "a \<noteq> b"
  shows "pointToLineDistance p a b =
     Fin (distanceTo p (vadd a (multiplyScalar (vsub b a)
            (max 0 (min 1 (vdot (vsub p a) (vsub b a) / lengthSq (vsub b a)))))))"
proof -
  have "lengthSq (vsub b a) \<noteq> 0" using lengthSq_vsub_pos[OF assms] by simp
  then show ?thesis by (simp add: pointToLineDistance_def Let_def jsclamp_finite)
qed

lemma distanceToSquared_along:
  "distanceToSquared p (vadd a (multiplyScalar w s)) =
     lengthSq (vsub p a) - 2 * s * vdot (vsub p a) w + s * s * lengthSq w"
  by (simp add: distanceToSquared_def Let_def vadd_def multiplyScalar_def lengthSq_def vsub_def
      vdot_def algebra_simps)

lemma clamped_parameter_least:
  fixes c l s :: real
  assumes l: "0 < l" and s: "0 \<le> s" "s \<le> 1"
  defines "t \<equiv> max 0 (min 1 (c / l))"
  shows "t * t * l - 2 * t * c \<le> s * s * l - 2 * s * c"
proof -
  let ?q = "c / l"
  have c: "c = ?q * l" using l by simp
  have "(s * s * l - 2 * s * c) - (t * t * l - 2 * t * c) = l * ((s - t) * (s + t - 2 * ?q))"
    using l by (simp add: field_simps)
  moreover have "0 \<le> (s - t) * (s + t - 2 * ?q)"
  proof (cases "?q \<le> 0")
    case True
    then have "t = 0" by (simp add: t_def)
    then show ?thesis using True s by simp
  next
    case False
    show ?thesis
    proof (cases "?q \<le> 1")
      case True
      then have "t = ?q" using False by (simp add: t_def)
      then have "(s - t) * (s + t - 2 * ?q) = (s - ?q) * (s - ?q)" by simp
      then show ?thesis by simp
    next
      case q1: False
      then have t1: "t = 1" by (simp add: t_def)
      have "s - 1 \<le> 0" and "s + 1 - 2 * ?q \<le> 0" using s q1 by simp_all
      then have "0 \<le> (s - 1) * (s + 1 - 2 * ?q)" by (rule mult_nonpos_nonpos)
      then show ?thesis unfolding t1 .
    qed
  qed
  ultimately have "0 \<le> (s * s * l - 2 * s * c) - (t * t * l - 2 * t * c)"
    using l by simp
  then show ?thesis by simp
qed

text \<open>
  Claim C2, amended. For a segment whose ends coincide, \<open>pointToLineDistance\<close> divides
  0 by 0 and returns NaN: no fault, but not the distance to \<open>a\<close>. For a segment whose
  ends differ it returns the distance from \<open>p\<close> to \<open>a + t (b - a)\<close> with the projection
  parameter \<open>t\<close> clamped to \<open>[0, 1]\<close>, which is the least distance from \<open>p\<close> to a point
  \<open>a + s (b - a)\<close>, \<open>0 \<le> s \<le> 1\<close>, of the segment.
\<close>

theorem point_to_segment_distance:
  "(a = b \<longrightarrow> pointToLineDistance p a b = NaN)
   \<and> (a \<noteq> b \<longrightarrow>
        (let t = max 0 (min 1 (vdot (vsub p a) (vsub b a) / lengthSq (vsub b a)))
         in 0 \<le> t \<and> t \<le> 1 \<and>
            pointToLineDistance p a b = Fin (distanceTo p (vadd a (multiplyScalar (vsub b a) t))) \<and>
            (\<forall>s. 0 \<le> s \<and> s \<le> 1 \<longrightarrow>
               distanceTo p (vadd a (multiplyScalar (vsub b a) t))
                 \<le> distanceTo p (vadd a (multiplyScalar (vsub b a) s)))))"
proof (intro conjI impI)
  assume "a = b"
  then show "pointToLineDistance p a b = NaN" by (simp add: pointToLineDistance_degenerate)
next
  assume ne: "a \<noteq> b"
  let ?w = "vsub b a"
  let ?t = "max 0 (min 1 (vdot (vsub p a) ?w / lengthSq ?w))"
  have least: "distanceTo p (vadd a (multiplyScalar ?w ?t)) \<le> distanceTo p (vadd a (multiplyScalar ?w s))"
    if "0 \<le> s \<and> s \<le> 1" for s
    unfolding distanceTo_def distanceToSquared_along
    using clamped_parameter_least[OF lengthSq_vsub_pos[OF ne], of s "vdot (vsub p a) ?w"] that
    by simp
  show "let t = ?t
         in 0 \<le> t \<and> t \<le> 1 \<and>
            pointToLineDistance p a b = Fin (distanceTo p (vadd a (multiplyScalar ?w t))) \<and>
            (\<forall>s. 0 \<le> s \<and> s \<le> 1 \<longrightarrow>
               distanceTo p (vadd a (multiplyScalar ?w t))
                 \<le> distanceTo p (vadd a (multiplyScalar ?w s)))"
    unfolding Let_def using pointToLineDistance_finite[OF ne, of p] least by simp
qed

text \<open>A segment whose ends coincide never collides: the test \<open>NaN < radius\<close> is false.\<close>

lemma collideSegment_degenerate:
  "start segment = endp segment \<Longrightarrow> collideSegment ball segment = ball"
  by (simp add: collideSegment_def pointToLineDistance_degenerate)

text \<open>
  In a reachable game every segment of every barrier has distinct ends, by the filter of
  \<open>onPointerMove\<close>, so the distance to it is a finite number: the NaN of a segment
  whose ends coincide does not arise in play.
\<close>

lemma reachable_distance_finite:
  assumes "reachable g" and "line \<in> set (lines g)" and "segment \<in> set (segments line)"
  shows "\<exists>d. pointToLineDistance p (start segment) (endp segment) = Fin d"
proof -
  have "list_all (\<lambda>line. list_all segmentDrawn (segments line)) (lines g)"
    using reachable_invariant[OF assms(1)] by (simp add: gameInvariant_def)
  then have "segmentDrawn segment" using assms(2,3) by (simp add: list_all_iff)
  then have "start segment \<noteq> endp segment" using segmentDrawn_nondegenerate by blast
  then show ?thesis using pointToLineDistance_finite by blast
qed

text \<open>
  Claim C2 as stated fails: with \<open>a = b\<close> the result is not the distance from \<open>p\<close> to
  \<open>a\<close>.
\<close>

theorem point_to_segment_distance_counterexample:
  "pointToLineDistance \<lparr>cx = 1, cy = 0, cz = 0\<rparr> \<lparr>cx = 0, cy = 0, cz = 0\<rparr> \<lparr>cx = 0, cy = 0, cz = 0\<rparr>
     \<noteq> Fin (distanceTo \<lparr>cx = 1, cy = 0, cz = 0\<rparr> \<lparr>cx = 0, cy = 0, cz = 0\<rparr>)"
  by (simp add: pointToLineDistance_degenerate)

text \<open>
  The point \<open>(2, 0)\<close> and the segment \<open>unitX\<close>: the parameter is clamped to 1, the
  distance is 1, and no point of the segment is nearer.
\<close>

theorem point_to_segment_distance_witness:
  "start unitX \<noteq> endp unitX \<and>
   pointToLineDistance \<lparr>cx = 2, cy = 0.1, cz = 0\<rparr> (start unitX) (endp unitX) = Fin 1 \<and>
   1 \<le> distanceTo \<lparr>cx = 2, cy = 0.1, cz = 0\<rparr> \<lparr>cx = 0.5, cy = 0.1, cz = 0\<rparr> \<and>
   pointToLineDistance \<lparr>cx = 2, cy = 0.1, cz = 0\<rparr> (start unitX) (start unitX) = NaN"
proof -
  have ne: "start unitX \<noteq> endp unitX" by (simp add: unitX_def)
  have t: "max 0 (min 1 (vdot (vsub \<lparr>cx = 2, cy = 0.1, cz = 0\<rparr> (start unitX))
              (vsub (endp unitX) (start unitX)) / lengthSq (vsub (endp unitX) (start unitX)))) = 1"
    by (simp add: unitX_def vsub_def vdot_def lengthSq_def)
  have p1: "vadd (start unitX) (multiplyScalar (vsub (endp unitX) (start unitX)) 1) = endp unitX"
    by (simp add: unitX_def vsub_def vadd_def multiplyScalar_def)
  have ph: "vadd (start unitX) (multiplyScalar (vsub (endp unitX) (start unitX)) (1/2))
      = \<lparr>cx = 0.5, cy = 0.1, cz = 0\<rparr>"
    by (simp add: unitX_def vsub_def vadd_def multiplyScalar_def)
  have d1: "distanceTo \<lparr>cx = 2, cy = 0.1, cz = 0\<rparr> (endp unitX) = 1"
    by (simp add: unitX_def distanceTo_def distanceToSquared_def)
  from point_to_segment_distance[of "start unitX" "endp unitX" "\<lparr>cx = 2, cy = 0.1, cz = 0\<rparr>"] ne
  have a: "pointToLineDistance \<lparr>cx = 2, cy = 0.1, cz = 0\<rparr> (start unitX) (endp unitX) = Fin 1"
    and b: "\<forall>s. 0 \<le> s \<and> s \<le> 1 \<longrightarrow>
       1 \<le> distanceTo \<lparr>cx = 2, cy = 0.1, cz = 0\<rparr>
              (vadd (start unitX) (multiplyScalar (vsub (endp unitX) (start unitX)) s))"
    unfolding Let_def t p1 d1 by simp_all
  from b have "1 \<le> distanceTo \<lparr>cx = 2, cy = 0.1, cz = 0\<rparr>
              (vadd (start unitX) (multiplyScalar (vsub (endp unitX) (start unitX)) (1/2)))"
    by simp
  then have c: "1 \<le> distanceTo \<lparr>cx = 2, cy = 0.1, cz = 0\<rparr> \<lparr>cx = 0.5, cy = 0.1, cz = 0\<rparr>"
    unfolding ph .
  from point_to_segment_distance[of "start unitX" "start unitX" "\<lparr>cx = 2, cy = 0.1, cz = 0\<rparr>"]
  have e: "pointToLineDistance \<lparr>cx = 2, cy = 0.1, cz = 0\<rparr> (start unitX) (start unitX) = NaN"
    by simp
  from ne a c e show ?thesis by simp
qed

section \<open>The collision response\<close>

lemma sqrt_169: "sqrt (169 / 10000) = 13 / 100"
  by (rule real_sqrt_unique) (simp_all add: power2_eq_square)

lemma sqrt_400: "sqrt (1 / 400) = 1 / 20"
  by (rule real_sqrt_unique) (simp_all add: power2_eq_square)

lemma vnormalize_unitX: "vnormalize (vsub (endp unitX) (start unitX)) = \<lparr>cx = 1, cy = 0, cz = 0\<rparr>"
  by (simp add: unitX_def vsub_def vnormalize_def vlength_def divideScalar_def multiplyScalar_def)

lemma closestPoint_unitX:
  "closestPoint p unitX = \<lparr>cx = cx p, cy = 0.1, cz = 0\<rparr>"
  by (simp add: closestPoint_def Let_def vnormalize_unitX)
     (simp add: unitX_def vsub_def vdot_def vadd_def multiplyScalar_def)

lemma segmentNormal_unitX: "segmentNormal unitX = \<lparr>cx = 0, cy = 0, cz = 1\<rparr>"
  by (simp add: segmentNormal_def Let_def vnormalize_unitX)

lemma collide_onLineBall:
  "collideSegment onLineBall unitX = onLineBall\<lparr>velocity := \<lparr>cx = 0, cy = 0, cz = -1\<rparr>\<rparr>"
proof -
  have d: "pointToLineDistance (position onLineBall) (start unitX) (endp unitX) = Fin 0"
    by (simp add: pointToLineDistance_def Let_def jsdiv_def onLineBall_def unitX_def vsub_def
        vdot_def lengthSq_def vadd_def multiplyScalar_def distanceTo_def distanceToSquared_def)
  have r: "reflect (velocity onLineBall) (segmentNormal unitX) = \<lparr>cx = 0, cy = 0, cz = -1\<rparr>"
    by (simp add: segmentNormal_unitX reflect_def Let_def onLineBall_def vdot_def vsub_def
        multiplyScalar_def)
  have p: "vnormalize (vsub (position onLineBall) (closestPoint (position onLineBall) unitX))
      = \<lparr>cx = 0, cy = 0, cz = 0\<rparr>"
    by (simp add: closestPoint_unitX onLineBall_def vsub_def vnormalize_def vlength_def
        divideScalar_def multiplyScalar_def)
  show ?thesis
    unfolding collideSegment_def d Let_def r p
    by (simp add: onLineBall_def vadd_def multiplyScalar_def)
qed

lemma distance_endBall:
  "pointToLineDistance (position endBall) (start unitX) (endp unitX) = Fin (13 / 100)"
  by (simp add: pointToLineDistance_def Let_def jsdiv_def endBall_def unitX_def vsub_def
        vdot_def lengthSq_def vadd_def multiplyScalar_def distanceTo_def distanceToSquared_def
        sqrt_169)

lemma collide_endBall:
  "collideSegment endBall unitX = endBall\<lparr>position := \<lparr>cx = -0.12, cy = 0.18, cz = 0\<rparr>\<rparr>"
proof -
  have r: "reflect (velocity endBall) (segmentNormal unitX) = velocity endBall"
    by (simp add: segmentNormal_unitX reflect_def Let_def endBall_def vdot_def vsub_def
        multiplyScalar_def)
  have p: "vnormalize (vsub (position endBall) (closestPoint (position endBall) unitX))
      = \<lparr>cx = 0, cy = 1, cz = 0\<rparr>"
    by (simp add: closestPoint_unitX endBall_def vsub_def vnormalize_def vlength_def
        divideScalar_def multiplyScalar_def sqrt_400)
  show ?thesis
    unfolding collideSegment_def distance_endBall Let_def r p
    by (simp add: endBall_def vadd_def multiplyScalar_def)
qed

text \<open>
  Where the projection of the ball's centre on the carrier line falls within the
  segment, it is the point the distance is measured to, and the push does what it is
  meant to: it leaves the ball \<open>radius + 0.01\<close> from the segment.
\<close>

lemma distanceTo_vlength: "distanceTo a b = vlength (vsub a b)"
  by (simp add: distanceTo_def distanceToSquared_def Let_def vlength_def vsub_def)

lemma vlength_multiplyScalar: "vlength (multiplyScalar n c) = \<bar>c\<bar> * vlength n"
proof -
  have "lengthSq (multiplyScalar n c) = (c * c) * lengthSq n"
    by (simp add: lengthSq_def multiplyScalar_def algebra_simps)
  then show ?thesis
    by (simp add: vlength_eq_sqrt_lengthSq real_sqrt_mult)
qed

lemma vnormalize_nonzero:
  "vlength a \<noteq> 0 \<Longrightarrow> vnormalize a = multiplyScalar a (1 / vlength a)"
  by (simp add: vnormalize_def divideScalar_def)

lemma vlength_pos: "a \<noteq> b \<Longrightarrow> 0 < vlength (vsub b a)"
  using lengthSq_vsub_pos[of a b] by (simp add: vlength_eq_sqrt_lengthSq)

lemma closestPoint_parameter:
  assumes "start segment \<noteq> endp segment"
  shows "closestPoint p segment =
     vadd (start segment) (multiplyScalar (vsub (endp segment) (start segment))
       (vdot (vsub p (start segment)) (vsub (endp segment) (start segment))
          / lengthSq (vsub (endp segment) (start segment))))"
proof -
  let ?w = "vsub (endp segment) (start segment)"
  let ?u = "vsub p (start segment)"
  let ?L = "vlength ?w"
  have L: "0 < ?L" using vlength_pos[OF assms] .
  have LL: "?L * ?L = lengthSq ?w"
    using lengthSq_nonneg[of ?w] by (simp add: vlength_eq_sqrt_lengthSq)
  have n: "vnormalize ?w = multiplyScalar ?w (1 / ?L)"
    using L by (simp add: vnormalize_nonzero)
  have d: "vdot ?u (multiplyScalar ?w (1 / ?L)) = vdot ?u ?w / ?L"
    by (simp add: vdot_def multiplyScalar_def add_divide_distrib)
  have "multiplyScalar (multiplyScalar ?w (1 / ?L)) (vdot ?u ?w / ?L)
      = multiplyScalar ?w (vdot ?u ?w / (?L * ?L))"
    by (simp add: multiplyScalar_def)
  then show ?thesis
    unfolding closestPoint_def Let_def n d LL by simp
qed

lemma vdot_offset:
  "vdot (vsub p (vadd a (multiplyScalar w q))) w = vdot (vsub p a) w - q * lengthSq w"
  by (simp add: vdot_def vsub_def vadd_def multiplyScalar_def lengthSq_def algebra_simps)

lemma vdot_offset_orthogonal:
  assumes "lengthSq w \<noteq> 0"
  shows "vdot (vsub p (vadd a (multiplyScalar w (vdot (vsub p a) w / lengthSq w)))) w = 0"
  using assms by (simp add: vdot_offset)

lemma vdot_pushed:
  "vdot (vsub (vadd p (multiplyScalar n c)) a) w = vdot (vsub p a) w + c * vdot n w"
  by (simp add: vdot_def vsub_def vadd_def multiplyScalar_def algebra_simps)

lemma vsub_pushed:
  "vsub (vadd p (multiplyScalar (vsub p cp) c)) cp = multiplyScalar (vsub p cp) (1 + c)"
  by (simp add: vsub_def vadd_def multiplyScalar_def algebra_simps)

lemma push_resolves_inside_segment:
  assumes ne: "start segment \<noteq> endp segment"
      and q: "0 \<le> vdot (vsub (position ball) (start segment)) (vsub (endp segment) (start segment))
                  / lengthSq (vsub (endp segment) (start segment))"
             "vdot (vsub (position ball) (start segment)) (vsub (endp segment) (start segment))
                  / lengthSq (vsub (endp segment) (start segment)) \<le> 1"
      and off: "closestPoint (position ball) segment \<noteq> position ball"
      and d: "pointToLineDistance (position ball) (start segment) (endp segment) = Fin d"
             "d < radius ball"
  shows "pointToLineDistance (position (collideSegment ball segment)) (start segment) (endp segment)
           = Fin (radius ball + 0.01)"
proof -
  let ?a = "start segment" and ?b = "endp segment" and ?p = "position ball"
  let ?w = "vsub ?b ?a"
  let ?q = "vdot (vsub ?p ?a) ?w / lengthSq ?w"
  let ?cp = "closestPoint ?p segment"
  let ?n = "vsub ?p ?cp"
  let ?k = "radius ball - d + 0.01"
  have l: "lengthSq ?w \<noteq> 0" using lengthSq_vsub_pos[OF ne] by simp
  have cp: "?cp = vadd ?a (multiplyScalar ?w ?q)" by (rule closestPoint_parameter[OF ne])
  have clamp: "max 0 (min 1 ?q) = ?q" using q by simp
  have "pointToLineDistance ?p ?a ?b =
      Fin (distanceTo ?p (vadd ?a (multiplyScalar ?w (max 0 (min 1 ?q)))))"
    by (rule pointToLineDistance_finite[OF ne])
  then have "pointToLineDistance ?p ?a ?b = Fin (distanceTo ?p ?cp)"
    by (simp only: clamp cp[symmetric])
  then have dn: "d = vlength ?n" using d(1) by (simp add: distanceTo_vlength)
  have dpos: "0 < d" unfolding dn using vlength_pos[OF off] .
  have push: "vnormalize ?n = multiplyScalar ?n (1 / d)"
    using dpos dn vnormalize_nonzero[of ?n] by simp
  let ?p' = "vadd ?p (multiplyScalar ?n (?k / d))"
  have "multiplyScalar (multiplyScalar ?n (1 / d)) ?k = multiplyScalar ?n (?k / d)"
    by (simp add: multiplyScalar_def)
  then have pos': "position (collideSegment ball segment) = ?p'"
    using d push by (simp add: collideSegment_def Let_def)
  have orth: "vdot ?n ?w = 0" unfolding cp by (rule vdot_offset_orthogonal[OF l])
  have q': "vdot (vsub ?p' ?a) ?w / lengthSq ?w = ?q"
    by (simp only: vdot_pushed orth) simp
  have "pointToLineDistance ?p' ?a ?b =
      Fin (distanceTo ?p' (vadd ?a (multiplyScalar ?w
        (max 0 (min 1 (vdot (vsub ?p' ?a) ?w / lengthSq ?w))))))"
    by (rule pointToLineDistance_finite[OF ne])
  then have "pointToLineDistance ?p' ?a ?b = Fin (distanceTo ?p' ?cp)"
    by (simp only: q' clamp cp[symmetric])
  also have "distanceTo ?p' ?cp = vlength (multiplyScalar ?n (1 + ?k / d))"
    by (simp only: distanceTo_vlength vsub_pushed)
  also have "\<dots> = \<bar>1 + ?k / d\<bar> * d" by (simp only: vlength_multiplyScalar dn)
  also have "\<dots> = radius ball + 0.01"
  proof -
    have "0 \<le> ?k" using d(2) by simp
    then have "0 \<le> 1 + ?k / d" using dpos by simp
    then have "\<bar>1 + ?k / d\<bar> * d = (1 + ?k / d) * d" by simp
    also have "\<dots> = d + ?k" using dpos by (simp add: field_simps)
    finally show ?thesis by simp
  qed
  finally show ?thesis unfolding pos' .
qed

text \<open>
  Claim C1 at a ball beyond the end of a segment. The ball \<open>endBall\<close> is 0.13 from the
  segment \<open>unitX\<close>, less than its radius 0.15, the nearest point being the start of the
  segment. The response pushes it by \<open>0.15 - 0.13 + 0.01\<close> away from its projection on
  the carrier line, which is not clamped to the segment, and after the push the ball is
  \<open>sqrt 0.0208\<close> from the segment, still less than its radius.
\<close>

theorem push_misses_beyond_segment_end:
  "pointToLineDistance (position endBall) (start unitX) (endp unitX) = Fin 0.13 \<and>
   0.13 < radius endBall \<and>
   position (collideSegment endBall unitX) = \<lparr>cx = -0.12, cy = 0.18, cz = 0\<rparr> \<and>
   pointToLineDistance (position (collideSegment endBall unitX)) (start unitX) (endp unitX)
     = Fin (sqrt 0.0208) \<and>
   sqrt 0.0208 < radius endBall"
proof -
  have a: "pointToLineDistance (position (collideSegment endBall unitX)) (start unitX) (endp unitX)
     = Fin (sqrt 0.0208)"
    unfolding collide_endBall
    by (simp add: pointToLineDistance_def Let_def jsdiv_def endBall_def unitX_def vsub_def
        vdot_def lengthSq_def vadd_def multiplyScalar_def distanceTo_def distanceToSquared_def)
  have "sqrt 0.0208 < (0.15 :: real)"
    by (rule real_less_lsqrt) (simp_all add: power2_eq_square)
  then have b: "sqrt 0.0208 < radius endBall" by (simp only: endBall_def Ball.simps)
  have c: "0.13 < radius endBall" by (simp add: endBall_def)
  have d: "position (collideSegment endBall unitX) = \<lparr>cx = -0.12, cy = 0.18, cz = 0\<rparr>"
    by (simp add: collide_endBall)
  have e: "pointToLineDistance (position endBall) (start unitX) (endp unitX) = Fin 0.13"
    using distance_endBall by simp
  from a b c d e show ?thesis by blast
qed

lemma vnormalize_zero: "vnormalize (vsub p p) = \<lparr>cx = 0, cy = 0, cz = 0\<rparr>"
  by (simp add: vsub_def vnormalize_def vlength_def divideScalar_def multiplyScalar_def)

lemma zero_push: "vadd p (multiplyScalar \<lparr>cx = 0, cy = 0, cz = 0\<rparr> k) = p"
  by (simp add: vadd_def multiplyScalar_def)

lemma distanceTo_pushed:
  assumes "vlength u = 1" and "0 \<le> k"
  shows "distanceTo (vadd p (multiplyScalar u k)) p = k"
proof -
  have u: "lengthSq u = 1" using assms(1) by (simp add: vlength_eq_sqrt_lengthSq)
  have "distanceToSquared (vadd p (multiplyScalar u k)) p = k * k * lengthSq u"
    by (simp add: distanceToSquared_def Let_def vadd_def multiplyScalar_def lengthSq_def
        algebra_simps)
  then show ?thesis using u assms(2) by (simp add: distanceTo_def)
qed

text \<open>
  Claim C9, amended. The push direction is the normalized vector from the projection of
  the ball's centre on the carrier line to the centre. When the centre lies on the
  carrier line that vector is zero, and normalizing leaves it zero (three.js divides by
  \<open>length () || 1\<close>): the push is zero and the position stays as it is. When the centre
  is off the line and the ball is nearer than its radius, the push moves it by exactly
  \<open>radius - d + 0.01\<close>.
\<close>

theorem push_at_carrier_line:
  "(closestPoint (position ball) segment = position ball \<longrightarrow>
      position (collideSegment ball segment) = position ball)
   \<and> (closestPoint (position ball) segment \<noteq> position ball \<and>
      pointToLineDistance (position ball) (start segment) (endp segment) = Fin d \<and>
      d < radius ball \<longrightarrow>
      distanceTo (position (collideSegment ball segment)) (position ball)
        = radius ball - d + 0.01)"
proof (intro conjI impI)
  assume "closestPoint (position ball) segment = position ball"
  then show "position (collideSegment ball segment) = position ball"
    by (simp add: collideSegment_def Let_def vnormalize_zero zero_push split: jsnum.split)
next
  let ?cp = "closestPoint (position ball) segment"
  assume h: "?cp \<noteq> position ball \<and>
      pointToLineDistance (position ball) (start segment) (endp segment) = Fin d \<and>
      d < radius ball"
  then have "lengthSq (vsub (position ball) ?cp) \<noteq> 0"
    using lengthSq_vsub_pos[of ?cp "position ball"] by simp
  then have u: "vlength (vnormalize (vsub (position ball) ?cp)) = 1"
    by (rule vlength_vnormalize)
  have k: "0 \<le> radius ball - d + 0.01" using h by simp
  show "distanceTo (position (collideSegment ball segment)) (position ball)
        = radius ball - d + 0.01"
    using h distanceTo_pushed[OF u k] by (simp add: collideSegment_def Let_def)
qed

text \<open>
  Claim C9 as stated fails: for a ball centred on the segment the response reflects the
  velocity and returns a finite position, the one the ball had.
\<close>

theorem push_at_carrier_line_counterexample:
  "position (collideSegment onLineBall unitX) = \<lparr>cx = 0.5, cy = 0.1, cz = 0\<rparr> \<and>
   velocity (collideSegment onLineBall unitX) = \<lparr>cx = 0, cy = 0, cz = -1\<rparr> \<and>
   closestPoint (position onLineBall) unitX = position onLineBall \<and>
   pointToLineDistance (position onLineBall) (start unitX) (endp unitX) = Fin 0"
proof -
  have "pointToLineDistance (position onLineBall) (start unitX) (endp unitX) = Fin 0"
    by (simp add: pointToLineDistance_def Let_def jsdiv_def onLineBall_def unitX_def vsub_def
        vdot_def lengthSq_def vadd_def multiplyScalar_def distanceTo_def distanceToSquared_def)
  moreover have "closestPoint (position onLineBall) unitX = position onLineBall"
    by (simp add: closestPoint_unitX onLineBall_def)
  ultimately show ?thesis by (simp add: collide_onLineBall) (simp add: onLineBall_def)
qed

text \<open>
  The response at \<open>onLineBall\<close>, centred on the segment, and at \<open>offLineBall\<close>, 0.13
  beside it.
\<close>

theorem push_at_carrier_line_witness:
  "closestPoint (position onLineBall) unitX = position onLineBall \<and>
   position (collideSegment onLineBall unitX) = position onLineBall \<and>
   closestPoint (position offLineBall) unitX \<noteq> position offLineBall \<and>
   pointToLineDistance (position offLineBall) (start unitX) (endp unitX) = Fin 0.13 \<and>
   0.13 < radius offLineBall \<and>
   distanceTo (position (collideSegment offLineBall unitX)) (position offLineBall) = 0.03"
proof -
  have a: "closestPoint (position onLineBall) unitX = position onLineBall"
    by (simp add: closestPoint_unitX onLineBall_def)
  have b: "closestPoint (position offLineBall) unitX \<noteq> position offLineBall"
    by (simp add: closestPoint_unitX offLineBall_def)
  have c: "pointToLineDistance (position offLineBall) (start unitX) (endp unitX) = Fin 0.13"
    by (simp add: pointToLineDistance_def Let_def jsdiv_def offLineBall_def unitX_def vsub_def
        vdot_def lengthSq_def vadd_def multiplyScalar_def distanceTo_def distanceToSquared_def
        sqrt_169)
  have d: "0.13 < radius offLineBall" by (simp add: offLineBall_def)
  have e: "radius offLineBall - 0.13 + 0.01 = 0.03" by (simp add: offLineBall_def)
  from push_at_carrier_line[of onLineBall unitX 0] a
  have f: "position (collideSegment onLineBall unitX) = position onLineBall" by blast
  from push_at_carrier_line[of offLineBall unitX "0.13"] b c d
  have "distanceTo (position (collideSegment offLineBall unitX)) (position offLineBall)
      = radius offLineBall - 0.13 + 0.01" by blast
  then have g: "distanceTo (position (collideSegment offLineBall unitX)) (position offLineBall)
      = 0.03" unfolding e .
  from a f b c d g show ?thesis by blast
qed

lemma updateBalls_single_inside:
  "balls g = [b] \<Longrightarrow> \<not> outsideBoundary (moveBall dt b) \<Longrightarrow>
   updateBalls dt g = g\<lparr>balls := [checkBallLineCollision (lines g) (moveBall dt b)]\<rparr>"
  by (simp add: updateBalls_def Let_def)

lemma vnormalize_wallSegment:
  "vnormalize (vsub (endp wallSegment) (start wallSegment)) = \<lparr>cx = 0, cy = 0, cz = 1\<rparr>"
  by (simp add: wallSegment_def vsub_def vnormalize_def vlength_def divideScalar_def
      multiplyScalar_def)

lemma segmentNormal_wallSegment: "segmentNormal wallSegment = \<lparr>cx = -1, cy = 0, cz = 0\<rparr>"
  by (simp add: segmentNormal_def Let_def vnormalize_wallSegment)

lemma closestPoint_wallSegment:
  "closestPoint p wallSegment = \<lparr>cx = 4.22, cy = 0.1, cz = cz p\<rparr>"
  by (simp add: closestPoint_def Let_def vnormalize_wallSegment)
     (simp add: wallSegment_def vsub_def vdot_def vadd_def multiplyScalar_def)

lemma move_incomingBall: "moveBall (1 / 200) incomingBall = touchingBall"
  by (simp add: moveBall_def incomingBall_def touchingBall_def vadd_def multiplyScalar_def)

lemma touchingBall_inside: "\<not> outsideBoundary touchingBall"
  by (simp add: touchingBall_def outsideBoundary_def boundarySize_def worldSize_def)

lemma pushedBall_outside: "outsideBoundary pushedBall"
  by (simp add: pushedBall_def outsideBoundary_def boundarySize_def worldSize_def)

lemma move_pushedBall_outside: "outsideBoundary (moveBall (1 / 200) pushedBall)"
  by (simp add: moveBall_def pushedBall_def vadd_def multiplyScalar_def outsideBoundary_def
      boundarySize_def worldSize_def)

lemma collide_wallSegment: "collideSegment touchingBall wallSegment = pushedBall"
proof -
  have d: "pointToLineDistance (position touchingBall) (start wallSegment) (endp wallSegment)
      = Fin (13 / 100)"
    by (simp add: pointToLineDistance_def Let_def jsdiv_def wallSegment_def touchingBall_def
        vsub_def vdot_def lengthSq_def vadd_def multiplyScalar_def distanceTo_def
        distanceToSquared_def sqrt_169)
  have r: "reflect (velocity touchingBall) (segmentNormal wallSegment) = \<lparr>cx = -2, cy = 0, cz = 0\<rparr>"
    by (simp add: segmentNormal_wallSegment reflect_def Let_def vdot_def vsub_def
        multiplyScalar_def touchingBall_def)
  have p: "vnormalize (vsub (position touchingBall) (closestPoint (position touchingBall) wallSegment))
      = \<lparr>cx = 12 / 13, cy = 5 / 13, cz = 0\<rparr>"
    by (simp add: closestPoint_wallSegment vsub_def vnormalize_def vlength_def divideScalar_def
        multiplyScalar_def sqrt_169 touchingBall_def)
  show ?thesis
    unfolding collideSegment_def d Let_def r p
    by (simp add: pushedBall_def touchingBall_def vadd_def multiplyScalar_def)
qed

lemma tick_nearWall:
  "gameLoop (1 / 200) 0 nearWall =
     nearWall\<lparr>gameTime := 2.17, ballSpeed := 2.217, balls := [pushedBall]\<rparr>"
proof -
  let ?g = "rampAndSpawn (1 / 200) 0 nearWall"
  have r: "?g = nearWall\<lparr>gameTime := 2.17, ballSpeed := 2.217\<rparr>"
    by (simp add: rampAndSpawn_def Let_def nearWall_def)
  have bs: "balls ?g = [incomingBall]" and ls: "lines ?g = [\<lparr>segments = [wallSegment]\<rparr>]"
    unfolding r by (simp_all add: nearWall_def)
  have i: "\<not> outsideBoundary (moveBall (1 / 200) incomingBall)"
    by (simp add: move_incomingBall touchingBall_inside)
  have "updateBalls (1 / 200) ?g =
      ?g\<lparr>balls := [checkBallLineCollision (lines ?g) (moveBall (1 / 200) incomingBall)]\<rparr>"
    using bs i by (rule updateBalls_single_inside)
  also have "checkBallLineCollision (lines ?g) (moveBall (1 / 200) incomingBall) = pushedBall"
    unfolding ls move_incomingBall by (simp add: checkBallLineCollision_def collide_wallSegment)
  finally have u: "updateBalls (1 / 200) ?g = ?g\<lparr>balls := [pushedBall]\<rparr>" .
  have "gameStarted nearWall" by (simp add: nearWall_def)
  then have "gameLoop (1 / 200) 0 nearWall = updateBalls (1 / 200) ?g"
    by (simp add: gameLoop_def)
  also have "\<dots> = ?g\<lparr>balls := [pushedBall]\<rparr>" by (rule u)
  also have "\<dots> = nearWall\<lparr>gameTime := 2.17, ballSpeed := 2.217, balls := [pushedBall]\<rparr>"
    by (simp only: r)
  finally show ?thesis .
qed

text \<open>
  Claim C10, amended. The boundary test of a tick reads each ball's position right after
  its move; when every ball passes, the game goes on with the balls as the collision
  response leaves them, which the tick does not test. The following tick ends the game
  if and only if some ball is outside after that tick's move. In the game \<open>nearWall\<close>
  the ball passes the test after its move, the push then puts it outside the boundary
  while the game still runs, and a following tick of a two-hundredth of a second ends
  the game.
\<close>

theorem breach_after_push_is_deferred:
  "(gameStarted g \<and>
    (\<forall>b\<in>set (balls (rampAndSpawn dt rnd g)). \<not> outsideBoundary (moveBall dt b)) \<longrightarrow>
      gameStarted (gameLoop dt rnd g) \<and>
      balls (gameLoop dt rnd g) =
        map (\<lambda>b. checkBallLineCollision (lines g) (moveBall dt b))
          (balls (rampAndSpawn dt rnd g)))
   \<and> (gameStarted (gameLoop dt rnd g) \<longrightarrow>
        (\<not> gameStarted (gameLoop dt' rnd' (gameLoop dt rnd g)) \<longleftrightarrow>
           (\<exists>b\<in>set (balls (rampAndSpawn dt' rnd' (gameLoop dt rnd g))).
              outsideBoundary (moveBall dt' b))))
   \<and> gameStarted nearWall
   \<and> balls nearWall = [incomingBall]
   \<and> \<not> outsideBoundary (moveBall (1 / 200) incomingBall)
   \<and> gameStarted (gameLoop (1 / 200) 0 nearWall)
   \<and> balls (gameLoop (1 / 200) 0 nearWall) = [pushedBall]
   \<and> outsideBoundary pushedBall
   \<and> \<not> gameStarted (gameLoop (1 / 200) 0 (gameLoop (1 / 200) 0 nearWall))"
proof -
  let ?g1 = "gameLoop (1 / 200) 0 nearWall"
  have s: "gameStarted nearWall" and b: "balls nearWall = [incomingBall]"
    by (simp_all add: nearWall_def)
  have i: "\<not> outsideBoundary (moveBall (1 / 200) incomingBall)"
    by (simp add: move_incomingBall touchingBall_inside)
  have s1: "gameStarted ?g1" and b1: "balls ?g1 = [pushedBall]"
    unfolding tick_nearWall by (simp_all add: nearWall_def)
  have bs: "balls (rampAndSpawn (1 / 200) 0 ?g1) = [pushedBall]"
    unfolding tick_nearWall by (simp add: rampAndSpawn_def Let_def nearWall_def)
  have e: "\<not> gameStarted (gameLoop (1 / 200) 0 ?g1)"
    unfolding gameLoop_ends_iff[OF s1] bs using move_pushedBall_outside by simp
  from gameLoop_all_inside[of g dt rnd] gameLoop_ends_iff[of "gameLoop dt rnd g" dt' rnd']
    s b i s1 b1 pushedBall_outside e
  show ?thesis by blast
qed

text \<open>
  Claim C10 as stated fails: in \<open>nearWall\<close> the ball is outside the boundary at the end
  of a tick that leaves the game running, and a following tick of a sixtieth of a second
  moves the ball back inside before the test, so that tick does not end the game.
\<close>

theorem breach_after_push_is_deferred_counterexample:
  "gameStarted (gameLoop (1 / 200) 0 nearWall) \<and>
   balls (gameLoop (1 / 200) 0 nearWall) = [pushedBall] \<and>
   outsideBoundary pushedBall \<and>
   \<not> outsideBoundary (moveBall (1 / 60) pushedBall) \<and>
   gameStarted (gameLoop (1 / 60) 0 (gameLoop (1 / 200) 0 nearWall))"
proof -
  let ?g1 = "gameLoop (1 / 200) 0 nearWall"
  have s1: "gameStarted ?g1" and b1: "balls ?g1 = [pushedBall]"
    unfolding tick_nearWall by (simp_all add: nearWall_def)
  have bs: "balls (rampAndSpawn (1 / 60) 0 ?g1) = [pushedBall]"
    unfolding tick_nearWall by (simp add: rampAndSpawn_def Let_def nearWall_def)
  have i: "\<not> outsideBoundary (moveBall (1 / 60) pushedBall)"
    by (simp add: moveBall_def pushedBall_def vadd_def multiplyScalar_def outsideBoundary_def
        boundarySize_def worldSize_def)
  have e: "gameStarted (gameLoop (1 / 60) 0 ?g1)"
    using gameLoop_ends_iff[OF s1, of "1 / 60" 0] i unfolding bs by simp
  from s1 b1 pushedBall_outside i e show ?thesis by blast
qed

text \<open>
  The first two statements at \<open>nearWall\<close>, with a following tick of a sixtieth of a
  second.
\<close>

theorem breach_after_push_is_deferred_witness:
  "gameStarted nearWall \<and>
   balls (rampAndSpawn (1 / 200) 0 nearWall) = [incomingBall] \<and>
   \<not> outsideBoundary (moveBall (1 / 200) incomingBall) \<and>
   gameStarted (gameLoop (1 / 200) 0 nearWall) \<and>
   balls (gameLoop (1 / 200) 0 nearWall) =
     [checkBallLineCollision (lines nearWall) (moveBall (1 / 200) incomingBall)] \<and>
   balls (rampAndSpawn (1 / 60) 0 (gameLoop (1 / 200) 0 nearWall)) = [pushedBall] \<and>
   \<not> outsideBoundary (moveBall (1 / 60) pushedBall) \<and>
   gameStarted (gameLoop (1 / 60) 0 (gameLoop (1 / 200) 0 nearWall))"
proof -
  let ?g1 = "gameLoop (1 / 200) 0 nearWall"
  have s: "gameStarted nearWall" by (simp add: nearWall_def)
  have b: "balls (rampAndSpawn (1 / 200) 0 nearWall) = [incomingBall]"
    by (simp add: rampAndSpawn_def Let_def nearWall_def)
  have i: "\<not> outsideBoundary (moveBall (1 / 200) incomingBall)"
    by (simp add: move_incomingBall touchingBall_inside)
  have b2: "balls (rampAndSpawn (1 / 60) 0 ?g1) = [pushedBall]"
    unfolding tick_nearWall by (simp add: rampAndSpawn_def Let_def nearWall_def)
  have i2: "\<not> outsideBoundary (moveBall (1 / 60) pushedBall)"
    by (simp add: moveBall_def pushedBall_def vadd_def multiplyScalar_def outsideBoundary_def
        boundarySize_def worldSize_def)
  note inst = breach_after_push_is_deferred[of nearWall "1 / 200" 0 "1 / 60" 0]
  from inst s i
  have c: "gameStarted ?g1 \<and>
      balls ?g1 = [checkBallLineCollision (lines nearWall) (moveBall (1 / 200) incomingBall)]"
    unfolding b by simp
  from inst c i2 have d: "gameStarted (gameLoop (1 / 60) 0 ?g1)"
    unfolding b2 by simp
  from s b i c b2 i2 d show ?thesis by blast
qed

end
